theory Spec2Isabelle
  imports Main "HOL-Library.DAList" "HOL-Library.List_Lexorder" "HOL-Library.Product_Lexorder"
begin

section \<open>Strings, ranges and the string reader\<close>

text \<open>
  JavaScript strings are modelled as \<open>string\<close> (a list of 8-bit characters), so the
  embedding covers ASCII input. \<open>toLowerCase\<close> maps the letters A..Z to a..z and
  leaves every other character alone.
\<close>

definition toLowerChar :: "char \<Rightarrow> char" where
  "toLowerChar c =
     (let n = (of_char c :: nat) in if 65 \<le> n \<and> n \<le> 90 then char_of (n + 32) else c)"

definition toLowerCase :: "string \<Rightarrow> string" where
  "toLowerCase s = map toLowerChar s"

text \<open>\<open>String.prototype.substring(a, b)\<close>: both indices are clamped to the length
  and swapped when \<open>a > b\<close>.\<close>

definition substring :: "string \<Rightarrow> nat \<Rightarrow> nat \<Rightarrow> string" where
  "substring s a b =
     (let a' = min a (length s); b' = min b (length s);
          lo = min a' b'; hi = max a' b'
      in take (hi - lo) (drop lo s))"

text \<open>\<open>substring(a)\<close> with one argument runs to the end of the string.\<close>

definition substringFrom :: "string \<Rightarrow> nat \<Rightarrow> string" where
  "substringFrom s a = substring s a (length s)"

definition startsWith :: "string \<Rightarrow> string \<Rightarrow> bool" where
  "startsWith s p = (take (length p) s = p)"

text \<open>
  Modelled from the spec: \<open>range.ts\<close> (class \<open>StringRange\<close>) is not among the
  sources. A range is a pair of positions into the input; \<open>at\<close>, \<open>between\<close>,
  \<open>encompassing\<close>, \<open>equals\<close> and \<open>isEmpty\<close> are the operations the dispatcher and the
  suggestion classes call. \<open>between 2 5\<close> selects the characters 2, 3, 4.
\<close>

record StringRange =
  range_start :: nat
  range_end :: nat

definition between :: "nat \<Rightarrow> nat \<Rightarrow> StringRange" where
  "between s e = \<lparr>range_start = s, range_end = e\<rparr>"

definition at :: "nat \<Rightarrow> StringRange" where
  "at pos = \<lparr>range_start = pos, range_end = pos\<rparr>"

definition encompassing :: "StringRange \<Rightarrow> StringRange \<Rightarrow> StringRange" where
  "encompassing a b =
     \<lparr>range_start = min (range_start a) (range_start b),
      range_end = max (range_end a) (range_end b)\<rparr>"

definition isEmpty :: "StringRange \<Rightarrow> bool" where
  "isEmpty r = (range_start r = range_end r)"

definition range_equals :: "StringRange \<Rightarrow> StringRange \<Rightarrow> bool" where
  "range_equals a b = (range_start a = range_start b \<and> range_end a = range_end b)"

text \<open>
  Modelled from the spec: \<open>reader.ts\<close> (class \<open>StringReader\<close>) is not among the
  sources. The reader is a cursor over an immutable string with \<open>peek\<close>, \<open>skip\<close>,
  \<open>canRead(n)\<close>, \<open>canReadAnything\<close>, \<open>clone\<close> and cursor assignment. \<open>peek\<close>
  yields the one-character string under the cursor (empty past the end).
\<close>

record StringReader =
  reader_string :: string
  reader_cursor :: nat

definition newStringReader :: "string \<Rightarrow> StringReader" where
  "newStringReader s = \<lparr>reader_string = s, reader_cursor = 0\<rparr>"

definition canRead :: "StringReader \<Rightarrow> nat \<Rightarrow> bool" where
  "canRead r n = (reader_cursor r + n \<le> length (reader_string r))"

definition canReadAnything :: "StringReader \<Rightarrow> bool" where
  "canReadAnything r = canRead r 1"

definition peek :: "StringReader \<Rightarrow> string" where
  "peek r = take 1 (drop (reader_cursor r) (reader_string r))"

definition skip :: "StringReader \<Rightarrow> StringReader" where
  "skip r = r\<lparr>reader_cursor := reader_cursor r + 1\<rparr>"

definition ARGUMENT_SEPARATOR :: string where
  "ARGUMENT_SEPARATOR = '' ''"


section \<open>Requirements (requirement.ts)\<close>

record 't RequirementFailure =
  showInTree :: "bool option"
  reason :: "'t option"

text \<open>A \<open>Requirement\<close> is a normalized predicate or an array of requirements; a
  normalized predicate returns \<open>None\<close> (\<open>undefined\<close>) when the source is permitted.\<close>

datatype ('s, 't) Requirement =
    Normalized "'s \<Rightarrow> 't RequirementFailure option"
  | Many "('s, 't) Requirement list"

text \<open>The loop of the closure returned by \<open>requireAnd\<close>: the first failure is returned
  at once.\<close>

fun requireAnd_run ::
  "('s \<Rightarrow> 't RequirementFailure option) list \<Rightarrow> 's \<Rightarrow> 't RequirementFailure option" where
  "requireAnd_run [] user = None"
| "requireAnd_run (requirement # rest) user =
     (case requirement user of
        Some failure \<Rightarrow> Some failure
      | None \<Rightarrow> requireAnd_run rest user)"

text \<open>The loop of the closure returned by \<open>requireOr\<close>: every predicate is called and
  \<open>anyFailed\<close> keeps the first failure.\<close>

fun requireOr_run ::
  "('s \<Rightarrow> 't RequirementFailure option) list \<Rightarrow> 's \<Rightarrow> 't RequirementFailure option
     \<Rightarrow> 't RequirementFailure option" where
  "requireOr_run [] user anyFailed = anyFailed"
| "requireOr_run (requirement # rest) user anyFailed =
     (let failure = requirement user
      in requireOr_run rest user
           (if failure \<noteq> None \<and> anyFailed = None then failure else anyFailed))"

definition requireNothing :: "'s \<Rightarrow> 't RequirementFailure option" where
  "requireNothing = (\<lambda>user. None)"

text \<open>\<open>normalizeRequirement\<close> on a defined requirement: an array goes through
  \<open>requireAnd\<close>, which normalizes every element first.\<close>

fun normalizeDefined ::
  "('s, 't) Requirement \<Rightarrow> 's \<Rightarrow> 't RequirementFailure option" where
  "normalizeDefined (Normalized f) = f"
| "normalizeDefined (Many requirements) = requireAnd_run (map normalizeDefined requirements)"

definition requireAnd ::
  "('s, 't) Requirement list \<Rightarrow> 's \<Rightarrow> 't RequirementFailure option" where
  "requireAnd requirements = requireAnd_run (map normalizeDefined requirements)"

definition requireOr ::
  "('s, 't) Requirement list \<Rightarrow> 's \<Rightarrow> 't RequirementFailure option" where
  "requireOr requirements = (\<lambda>user. requireOr_run (map normalizeDefined requirements) user None)"

definition normalizeRequirement ::
  "('s, 't) Requirement option \<Rightarrow> 's \<Rightarrow> 't RequirementFailure option" where
  "normalizeRequirement requirement =
     (case requirement of
        None \<Rightarrow> requireNothing
      | Some (Many rs) \<Rightarrow> requireAnd rs
      | Some (Normalized f) \<Rightarrow> f)"


section \<open>Errors\<close>

text \<open>The error classes the dispatcher and the tree throw; \<open>JsError\<close> stands for a
  plain \<open>Error\<close> with a message and for whatever user code (argument types, executors,
  suggestion providers) throws.\<close>

datatype 't Error =
    UnknownSomethingError StringReader string
  | ExpectedArgumentSeparatorError StringReader
  | LiteralError StringReader string
  | RequirementFailedError 't
  | JsError string


section \<open>Suggestions (suggestions.ts)\<close>

datatype SuggestionType = literal_suggestion | argument_suggestion

text \<open>Command nodes are objects with identity; every reference to a node is a handle
  (an index into the node store defined below).\<close>

type_synonym NodeRef = nat

record SuggestionMetadata =
  md_prefix :: "string option"
  md_suffix :: "string option"
  md_order :: "int option"
  md_suggestionType :: "SuggestionType option"
  md_commandNode :: "NodeRef option"

text \<open>The instance fields \<open>prefix\<close>, \<open>suffix\<close> and \<open>order\<close> of \<open>Suggestion\<close> are
  never written after construction and are left out.\<close>

record Suggestion =
  s_range :: StringRange
  s_metadata :: SuggestionMetadata
  s_text :: string
  s_tooltip :: "string option"

record Suggestions =
  ss_range :: StringRange
  suggestions :: "Suggestion list"

definition expand :: "Suggestion \<Rightarrow> string \<Rightarrow> StringRange \<Rightarrow> Suggestion" where
  "expand this command rng =
     (if range_equals rng (s_range this) then this
      else
        let result0 = [];
            result1 = (if range_start rng < range_start (s_range this)
                       then result0 @ substring command (range_start rng) (range_start (s_range this))
                       else result0);
            result2 = result1 @ s_text this;
            result3 = (if range_end rng > range_end (s_range this)
                       then result2 @ substring command (range_end (s_range this)) (range_end rng)
                       else result2)
        in \<lparr>s_range = rng, s_metadata = s_metadata this, s_text = result3,
            s_tooltip = s_tooltip this\<rparr>)"

definition EMPTY_SUGGESTIONS :: Suggestions where
  "EMPTY_SUGGESTIONS = \<lparr>ss_range = at 0, suggestions = []\<rparr>"

text \<open>
  \<open>Suggestions.create\<close>. The two \<open>Set<Suggestion>\<close> of the source compare objects by
  identity, and every suggestion is a separate object, so the sets are modelled as
  lists in insertion order. \<open>sorted.sort(undefined)\<close> compares the elements as strings;
  each is \<open>[object Object]\<close>, so the stable sort leaves the order as it is.
\<close>

definition create :: "string \<Rightarrow> Suggestion list \<Rightarrow> Suggestions" where
  "create command sugs =
     (case sugs of
        [] \<Rightarrow> EMPTY_SUGGESTIONS
      | first # rest \<Rightarrow>
          let start = fold (\<lambda>suggestion acc. min (range_start (s_range suggestion)) acc)
                        rest (range_start (s_range first));
              stop = fold (\<lambda>suggestion acc. max (range_end (s_range suggestion)) acc)
                        rest (range_end (s_range first));
              rng = \<lparr>range_start = start, range_end = stop\<rparr>;
              texts = map (\<lambda>suggestion. expand suggestion command rng) sugs
          in \<lparr>ss_range = rng, suggestions = texts\<rparr>)"

definition merge :: "string \<Rightarrow> Suggestions list \<Rightarrow> Suggestions" where
  "merge command input =
     (case input of
        [] \<Rightarrow> EMPTY_SUGGESTIONS
      | [single] \<Rightarrow> single
      | _ \<Rightarrow> create command (concat (map suggestions input)))"

record SuggestionsBuilder =
  sb_input :: string
  sb_start :: nat
  sb_metadata :: SuggestionMetadata
  remaining :: string
  sb_result :: "Suggestion list"

definition newSuggestionsBuilder ::
  "string \<Rightarrow> nat \<Rightarrow> SuggestionMetadata \<Rightarrow> SuggestionsBuilder" where
  "newSuggestionsBuilder input start metadata =
     \<lparr>sb_input = input, sb_start = start, sb_metadata = metadata,
      remaining = substringFrom input start, sb_result = []\<rparr>"

definition suggest :: "SuggestionsBuilder \<Rightarrow> string \<Rightarrow> string option \<Rightarrow> SuggestionsBuilder" where
  "suggest this text tooltip =
     (if text = remaining this then this
      else this\<lparr>sb_result := sb_result this @
             [\<lparr>s_range = between (sb_start this) (length (sb_input this)),
               s_metadata = sb_metadata this, s_text = text, s_tooltip = tooltip\<rparr>]\<rparr>)"

definition build_suggestions :: "SuggestionsBuilder \<Rightarrow> Suggestions" where
  "build_suggestions this = create (sb_input this) (sb_result this)"


section \<open>Built command contexts (command.ts, class CommandContext)\<close>

record 'v ParsedArgument =
  pa_range :: StringRange
  pa_result :: 'v

text \<open>
  A JavaScript \<open>Map\<close> with string keys keeps one entry per key in insertion order:
  \<open>('k, 'v) alist\<close>. \<open>set\<close> is \<open>DAList.update\<close> (overwrite in place, else append),
  \<open>get\<close> is \<open>DAList.lookup\<close>, \<open>Array.from(m)\<close> is \<open>DAList.impl_of m\<close>.

  Executors and redirect modifiers are functions of the context they are stored in;
  they are kept as values of the abstract types \<open>'c\<close> and \<open>'m\<close>, and the functions
  that run them are parameters of \<open>executeResults\<close>.
\<close>

datatype ('s, 'c, 'm, 'v) CommandContext = CommandContext
  (ctx_source: 's)
  (ctx_input: string)
  (ctx_parsedArguments: "(string, 'v ParsedArgument) alist")
  (ctx_rootNode: NodeRef)
  (ctx_nodes: "(NodeRef \<times> StringRange) list")
  (ctx_range: StringRange)
  (ctx_command: "'c option")
  (ctx_child: "('s, 'c, 'm, 'v) CommandContext option")
  (ctx_modifier: "'m option")

definition copyFor :: "('s, 'c, 'm, 'v) CommandContext \<Rightarrow> 's \<Rightarrow> ('s, 'c, 'm, 'v) CommandContext" where
  "copyFor this source =
     (if ctx_source this = source then this
      else CommandContext source (ctx_input this) (ctx_parsedArguments this) (ctx_rootNode this)
             (ctx_nodes this) (ctx_range this) (ctx_command this) (ctx_child this)
             (ctx_modifier this))"

definition hasNodes :: "('s, 'c, 'm, 'v) CommandContext \<Rightarrow> bool" where
  "hasNodes this = (length (ctx_nodes this) \<noteq> 0)"

text \<open>
  \<open>getArguments\<close> loops with \<open>for (let key in this.parsedArguments.keys())\<close>. The
  operand of \<open>for ... in\<close> is the iterator object that \<open>Map.prototype.keys\<close> returns, and
  \<open>for ... in\<close> visits the enumerable string-keyed properties of its operand, not the
  values an iterator yields. \<open>MapIterator\<close> records both views of that object: the keys
  it would yield to \<open>for ... of\<close>, and its enumerable properties, of which a map
  iterator has none (\<open>next\<close> lives on the prototype and is not enumerable).
\<close>

record MapIterator =
  yields :: "string list"
  enumerableProperties :: "string list"

definition keys :: "(string, 'a) alist \<Rightarrow> MapIterator" where
  "keys m = \<lparr>yields = map fst (DAList.impl_of m), enumerableProperties = []\<rparr>"

definition forIn :: "MapIterator \<Rightarrow> string list" where
  "forIn obj = enumerableProperties obj"

text \<open>The result object of \<open>getArguments\<close> is a list of properties in assignment order;
  a property holds what \<open>Map.get\<close> returned.\<close>

definition getArguments ::
  "('s, 'c, 'm, 'v) CommandContext \<Rightarrow> (string \<times> 'v ParsedArgument option) list" where
  "getArguments this =
     fold (\<lambda>key result. AList.update key (DAList.lookup (ctx_parsedArguments this) key) result)
       (forIn (keys (ctx_parsedArguments this))) []"

definition getArgumentIfExists :: "('s, 'c, 'm, 'v) CommandContext \<Rightarrow> string \<Rightarrow> 'v option" where
  "getArgumentIfExists this name =
     (case DAList.lookup (ctx_parsedArguments this) name of
        None \<Rightarrow> None
      | Some argument \<Rightarrow> Some (pa_result argument))"

definition getArgument :: "('s, 'c, 'm, 'v) CommandContext \<Rightarrow> string \<Rightarrow> 't Error + 'v" where
  "getArgument this name =
     (case DAList.lookup (ctx_parsedArguments this) name of
        None \<Rightarrow> Inl (JsError (''No such argument \"'' @ name @ ''\" exists on this command''))
      | Some argument \<Rightarrow> Inr (pa_result argument))"


section \<open>The command tree (tree.ts)\<close>

subsection \<open>Argument types and node kinds\<close>

text \<open>The modifier of the root node is the function \<open>s => s\<close> of its constructor; every
  other modifier comes from a builder.\<close>

datatype 'm RedirectModifier = RootModifier | Modifier 'm

type_synonym ('s, 't, 'c, 'm, 'v) SuggestionProvider =
  "('s, 'c, 'm RedirectModifier, 'v) CommandContext \<Rightarrow> SuggestionsBuilder
     \<Rightarrow> 't Error + Suggestions"

text \<open>
  Of an argument type the tree operations below use its examples and its
  \<open>listSuggestions\<close>. A type either inherits \<open>ArgumentType.listSuggestions\<close>
  (\<open>type_listSuggestions = None\<close>) or overrides it.
\<close>

record ('s, 't, 'c, 'm, 'v) ArgumentType =
  examples :: "string list"
  type_listSuggestions :: "('s, 't, 'c, 'm, 'v) SuggestionProvider option"

text \<open>\<open>ArgumentType.listSuggestions\<close> of \<open>arguments/core.ts\<close>.\<close>

definition ArgumentType_listSuggestions ::
  "string list \<Rightarrow> ('s, 't, 'c, 'm, 'v) SuggestionProvider" where
  "ArgumentType_listSuggestions exs ctx builder =
     (let rem = remaining builder
      in Inr (build_suggestions
           (fold (\<lambda>literal b. if startsWith literal rem then suggest b literal None else b)
              exs builder)))"

text \<open>\<open>BoolArgumentType.listSuggestions\<close>.\<close>

definition BoolArgumentType_listSuggestions :: "('s, 't, 'c, 'm, 'v) SuggestionProvider" where
  "BoolArgumentType_listSuggestions ctx builder =
     (let buffer = toLowerCase (remaining builder);
          b1 = (if startsWith ''true'' buffer then suggest builder ''true'' None else builder);
          b2 = (if startsWith ''false'' buffer then suggest b1 ''false'' None else b1)
      in Inr (build_suggestions b2))"

definition BoolArgumentType :: "('s, 't, 'c, 'm, 'v) ArgumentType" where
  "BoolArgumentType =
     \<lparr>examples = [''true'', ''false''],
      type_listSuggestions = Some BoolArgumentType_listSuggestions\<rparr>"

definition listSuggestions_of_type ::
  "('s, 't, 'c, 'm, 'v) ArgumentType \<Rightarrow> ('s, 't, 'c, 'm, 'v) SuggestionProvider" where
  "listSuggestions_of_type ty =
     (case type_listSuggestions ty of
        None \<Rightarrow> ArgumentType_listSuggestions (examples ty)
      | Some f \<Rightarrow> f)"

text \<open>
  The three node classes. A literal node is built from a non-empty array
  \<open>literalNames\<close>: index 0 is the canonical name, the rest are the aliases. (The
  wrapper class \<open>PassthroughCommandNode\<close>, which nothing in the sources creates, is
  left out.)
\<close>

datatype ('s, 't, 'c, 'm, 'v) NodeKind =
    RootCommandNode
  | LiteralCommandNode string "string list"
  | ArgumentCommandNode string "('s, 't, 'c, 'm, 'v) ArgumentType"
      "('s, 't, 'c, 'm, 'v) SuggestionProvider option"

definition literalNames :: "('s, 't, 'c, 'm, 'v) NodeKind \<Rightarrow> string list" where
  "literalNames k = (case k of LiteralCommandNode l as \<Rightarrow> l # as | _ \<Rightarrow> [])"

fun kind_name :: "('s, 't, 'c, 'm, 'v) NodeKind \<Rightarrow> string" where
  "kind_name RootCommandNode = ''''"
| "kind_name (LiteralCommandNode l as) = l"
| "kind_name (ArgumentCommandNode n ty custom) = n"

fun sortedKey :: "('s, 't, 'c, 'm, 'v) NodeKind \<Rightarrow> string" where
  "sortedKey RootCommandNode = ''''"
| "sortedKey (LiteralCommandNode l as) = l"
| "sortedKey (ArgumentCommandNode n ty custom) = n"

fun usage :: "('s, 't, 'c, 'm, 'v) NodeKind \<Rightarrow> string" where
  "usage RootCommandNode = ''''"
| "usage (LiteralCommandNode l as) = l"
| "usage (ArgumentCommandNode n ty custom) = ''<'' @ n @ ''>''"

fun isLiteral :: "('s, 't, 'c, 'm, 'v) NodeKind \<Rightarrow> bool" where
  "isLiteral (LiteralCommandNode l as) = True"
| "isLiteral _ = False"

fun isArgument :: "('s, 't, 'c, 'm, 'v) NodeKind \<Rightarrow> bool" where
  "isArgument (ArgumentCommandNode n ty custom) = True"
| "isArgument _ = False"

record ('s, 't, 'c, 'm, 'v) CommandNode =
  kind :: "('s, 't, 'c, 'm, 'v) NodeKind"
  command :: "'c option"
  commandDescription :: "string option"
  requirement :: "('s \<Rightarrow> 't RequirementFailure option) option"
  redirect :: "NodeRef option"
  modifier :: "'m RedirectModifier option"
  childrenMap :: "(string \<times> NodeRef) list"
  literals :: "(string \<times> NodeRef) list"
  arguments :: "(string \<times> NodeRef) list"

text \<open>
  The node store: node objects are mutable and shared (a child sits in \<open>childrenMap\<close>
  and in \<open>literals\<close> or \<open>arguments\<close>, a redirect may point back to an ancestor), so
  they live in a store and are named by their index. The three maps of a node are
  association lists from names to handles, in insertion order. A computation that
  meets a handle outside the store has no result (\<open>None\<close>).
\<close>

type_synonym ('s, 't, 'c, 'm, 'v) NodeStore = "('s, 't, 'c, 'm, 'v) CommandNode list"

definition getNode ::
  "('s, 't, 'c, 'm, 'v) NodeStore \<Rightarrow> NodeRef \<Rightarrow> ('s, 't, 'c, 'm, 'v) CommandNode option" where
  "getNode h i = (if i < length h then Some (h ! i) else None)"

definition alloc ::
  "('s, 't, 'c, 'm, 'v) NodeStore \<Rightarrow> ('s, 't, 'c, 'm, 'v) CommandNode
     \<Rightarrow> ('s, 't, 'c, 'm, 'v) NodeStore \<times> NodeRef" where
  "alloc h n = (h @ [n], length h)"

definition newCommandNode ::
  "('s, 't, 'c, 'm, 'v) NodeKind \<Rightarrow> 'c option \<Rightarrow> string option
     \<Rightarrow> ('s \<Rightarrow> 't RequirementFailure option) option \<Rightarrow> NodeRef option
     \<Rightarrow> 'm RedirectModifier option \<Rightarrow> ('s, 't, 'c, 'm, 'v) CommandNode" where
  "newCommandNode k cmd descr req red md =
     \<lparr>kind = k, command = cmd, commandDescription = descr, requirement = req,
      redirect = red, modifier = md, childrenMap = [], literals = [], arguments = []\<rparr>"

definition newRootCommandNode :: "('s, 't, 'c, 'm, 'v) CommandNode" where
  "newRootCommandNode =
     newCommandNode RootCommandNode None None (Some (\<lambda>s. None)) None (Some RootModifier)"

definition name :: "('s, 't, 'c, 'm, 'v) CommandNode \<Rightarrow> string" where
  "name n = kind_name (kind n)"

definition children :: "('s, 't, 'c, 'm, 'v) CommandNode \<Rightarrow> NodeRef list" where
  "children n = map snd (childrenMap n)"

definition getChild :: "('s, 't, 'c, 'm, 'v) CommandNode \<Rightarrow> string \<Rightarrow> NodeRef option" where
  "getChild n nm = map_of (childrenMap n) nm"


subsection \<open>checkRequirement\<close>

text \<open>
  \<open>checkRequirement\<close> follows redirects, which may form cycles, so the embedding takes
  fuel: the outer \<open>None\<close> says that the fuel ran out (the source would not return).
  In \<open>Some r\<close>, \<open>r = None\<close> is the source's \<open>undefined\<close> (permitted) and
  \<open>r = Some failure\<close> a requirement failure. \<open>checkRequirement_children\<close> is the
  final \<open>for\<close> loop; falling off its end returns \<open>undefined\<close>.
\<close>

fun checkRequirement ::
  "nat \<Rightarrow> ('s, 't, 'c, 'm, 'v) NodeStore \<Rightarrow> NodeRef \<Rightarrow> 's \<Rightarrow> 't RequirementFailure option option"
and checkRequirement_children ::
  "nat \<Rightarrow> ('s, 't, 'c, 'm, 'v) NodeStore \<Rightarrow> NodeRef list \<Rightarrow> 's \<Rightarrow> 't RequirementFailure option option"
where
  "checkRequirement 0 h this source = None"
| "checkRequirement (Suc fuel) h this source =
     (case getNode h this of
        None \<Rightarrow> None
      | Some node \<Rightarrow>
          (case (case requirement node of None \<Rightarrow> None | Some req \<Rightarrow> req source) of
             Some failure \<Rightarrow> Some (Some failure)
           | None \<Rightarrow>
               if command node \<noteq> None then Some None
               else
                 (case redirect node of
                    None \<Rightarrow> checkRequirement_children fuel h (children node) source
                  | Some target \<Rightarrow>
                      (case checkRequirement fuel h target source of
                         None \<Rightarrow> None
                       | Some None \<Rightarrow> Some None
                       | Some (Some failure) \<Rightarrow>
                           checkRequirement_children fuel h (children node) source))))"
| "checkRequirement_children fuel h [] source = Some None"
| "checkRequirement_children fuel h (child # rest) source =
     (case checkRequirement fuel h child source of
        None \<Rightarrow> None
      | Some None \<Rightarrow> Some None
      | Some (Some failure) \<Rightarrow> checkRequirement_children fuel h rest source)"


subsection \<open>Ordering of children\<close>

text \<open>
  \<open>String.prototype.localeCompare\<close> is outside the repository. It is taken as the
  comparison of collation keys: \<open>collate\<close> is a parameter that maps a string to its
  key in some linear order.
\<close>

definition localeCompare :: "(string \<Rightarrow> 'k::linorder) \<Rightarrow> string \<Rightarrow> string \<Rightarrow> int" where
  "localeCompare collate a b =
     (if collate a < collate b then - 1 else if collate a = collate b then 0 else 1)"

definition compareTo ::
  "(string \<Rightarrow> 'k::linorder) \<Rightarrow> ('s, 't, 'c, 'm, 'v) NodeKind \<Rightarrow> ('s, 't, 'c, 'm, 'v) NodeKind \<Rightarrow> int" where
  "compareTo collate this other =
     (if isLiteral this = isLiteral other
      then localeCompare collate (sortedKey this) (sortedKey other)
      else if isLiteral other then 1 else - 1)"

text \<open>
  \<open>Array.prototype.sort(compare)\<close> is a stable sort; for a comparator that is a
  consistent order its result is the one of insertion sort, where an element goes in
  front of the first later element it does not compare greater than.
\<close>

fun insertWith :: "('a \<Rightarrow> 'a \<Rightarrow> int) \<Rightarrow> 'a \<Rightarrow> 'a list \<Rightarrow> 'a list" where
  "insertWith cmp x [] = [x]"
| "insertWith cmp x (y # ys) = (if cmp x y \<le> 0 then x # y # ys else y # insertWith cmp x ys)"

definition sortWith :: "('a \<Rightarrow> 'a \<Rightarrow> int) \<Rightarrow> 'a list \<Rightarrow> 'a list" where
  "sortWith cmp xs = foldr (insertWith cmp) xs []"

text \<open>The kind of the node behind a handle; the kind of a node never changes. A
  handle outside the store, which no operation produces, is given the root's kind.\<close>

definition kindAt :: "('s, 't, 'c, 'm, 'v) NodeStore \<Rightarrow> NodeRef \<Rightarrow> ('s, 't, 'c, 'm, 'v) NodeKind" where
  "kindAt h i = (case getNode h i of None \<Rightarrow> RootCommandNode | Some n \<Rightarrow> kind n)"

text \<open>The last statement of \<open>addChild\<close>: the entries of the children map, sorted by
  \<open>a[1].compareTo(b[1])\<close>.\<close>

definition sortChildren ::
  "(string \<Rightarrow> 'k::linorder) \<Rightarrow> ('s, 't, 'c, 'm, 'v) NodeStore \<Rightarrow> (string \<times> NodeRef) list
     \<Rightarrow> (string \<times> NodeRef) list" where
  "sortChildren collate h entries =
     sortWith (\<lambda>a b. compareTo collate (kindAt h (snd a)) (kindAt h (snd b))) entries"


subsection \<open>addChild and removeChild\<close>

definition setNode ::
  "('s, 't, 'c, 'm, 'v) NodeStore \<Rightarrow> NodeRef \<Rightarrow> ('s, 't, 'c, 'm, 'v) CommandNode
     \<Rightarrow> ('s, 't, 'c, 'm, 'v) NodeStore" where
  "setNode h i n = h[i := n]"

text \<open>\<open>Map.delete\<close> on an association list.\<close>

definition map_delete :: "string \<Rightarrow> (string \<times> 'a) list \<Rightarrow> (string \<times> 'a) list" where
  "map_delete k m = AList.delete k m"

definition removeChild ::
  "('s, 't, 'c, 'm, 'v) NodeStore \<Rightarrow> NodeRef \<Rightarrow> NodeRef \<Rightarrow> ('s, 't, 'c, 'm, 'v) NodeStore option" where
  "removeChild h this node =
     (case (getNode h this, getNode h node) of
        (Some t, Some n) \<Rightarrow>
          (let t1 = t\<lparr>childrenMap := map_delete (name n) (childrenMap t)\<rparr>;
               t2 = (if isLiteral (kind n) then t1\<lparr>literals := map_delete (name n) (literals t1)\<rparr>
                     else if isArgument (kind n)
                     then t1\<lparr>arguments := map_delete (name n) (arguments t1)\<rparr>
                     else t1)
           in Some (setNode h this t2))
      | _ \<Rightarrow> None)"

text \<open>
  \<open>addChild\<close> recurses through the children of the added node, which are reached
  through the store, so it takes fuel; \<open>None\<close> says that the fuel ran out, \<open>Some (Inl e)\<close>
  that \<open>e\<close> was thrown. \<open>addChild_each\<close> is the loop
  \<open>for (let grandchild of node.children) child.addChild(grandchild)\<close>; \<open>node.children\<close>
  is read once, before the loop.
\<close>

fun addChild ::
  "(string \<Rightarrow> 'k::linorder) \<Rightarrow> nat \<Rightarrow> ('s, 't, 'c, 'm, 'v) NodeStore \<Rightarrow> NodeRef \<Rightarrow> NodeRef
     \<Rightarrow> ('t Error + ('s, 't, 'c, 'm, 'v) NodeStore) option"
and addChild_each ::
  "(string \<Rightarrow> 'k::linorder) \<Rightarrow> nat \<Rightarrow> ('s, 't, 'c, 'm, 'v) NodeStore \<Rightarrow> NodeRef \<Rightarrow> NodeRef list
     \<Rightarrow> ('t Error + ('s, 't, 'c, 'm, 'v) NodeStore) option"
where
  "addChild collate 0 h this node = None"
| "addChild collate (Suc fuel) h this node =
     (case (getNode h this, getNode h node) of
        (Some t, Some n) \<Rightarrow>
          if kind n = RootCommandNode
          then Some (Inl (JsError ''Cannot add RootCommandNode as child''))
          else
            (case getChild t (name n) of
               Some child \<Rightarrow>
                 (case getNode h child of
                    None \<Rightarrow> None
                  | Some c \<Rightarrow>
                      (let h1 = (if command n \<noteq> None
                                 then setNode h child (c\<lparr>command := command n\<rparr>) else h)
                       in case addChild_each collate fuel h1 child (children n) of
                            None \<Rightarrow> None
                          | Some (Inl e) \<Rightarrow> Some (Inl e)
                          | Some (Inr h2) \<Rightarrow>
                              (case getNode h2 this of
                                 None \<Rightarrow> None
                               | Some t2 \<Rightarrow>
                                   Some (Inr (setNode h2 this
                                     (t2\<lparr>childrenMap :=
                                            sortChildren collate h2 (childrenMap t2)\<rparr>))))))
             | None \<Rightarrow>
                 (let t1 = t\<lparr>childrenMap := AList.update (name n) node (childrenMap t)\<rparr>;
                      t2 = (if isLiteral (kind n)
                            then t1\<lparr>literals := AList.update (name n) node (literals t1)\<rparr>
                            else if isArgument (kind n)
                            then t1\<lparr>arguments := AList.update (name n) node (arguments t1)\<rparr>
                            else t1);
                      h1 = setNode h this t2
                  in Some (Inr (setNode h1 this
                       (t2\<lparr>childrenMap := sortChildren collate h1 (childrenMap t2)\<rparr>)))))
      | _ \<Rightarrow> None)"
| "addChild_each collate fuel h child [] = Some (Inr h)"
| "addChild_each collate fuel h child (grandchild # rest) =
     (case addChild collate fuel h child grandchild of
        None \<Rightarrow> None
      | Some (Inl e) \<Rightarrow> Some (Inl e)
      | Some (Inr h') \<Rightarrow> addChild_each collate fuel h' child rest)"


subsection \<open>Literal nodes\<close>

text \<open>
  \<open>LiteralCommandNode._parse\<close>: the loop over \<open>literalNames\<close>. The result is the pair
  of the returned number (\<open>- 1\<close> when no name matched) and the reader as the call
  leaves it.
\<close>

fun literal_parse_loop :: "string list \<Rightarrow> nat \<Rightarrow> StringReader \<Rightarrow> int \<times> StringReader" where
  "literal_parse_loop [] start reader = (- 1, reader)"
| "literal_parse_loop (literal # rest) start reader =
     (if canRead reader (length literal)
      then
        (let end = start + length literal
         in if toLowerCase (substring (reader_string reader) start end) = literal
            then
              (let reader1 = reader\<lparr>reader_cursor := end\<rparr>
               in if \<not> canReadAnything reader1 \<or> peek reader1 = '' ''
                  then (int end, reader1)
                  else literal_parse_loop rest start (reader1\<lparr>reader_cursor := start\<rparr>))
            else literal_parse_loop rest start reader)
      else literal_parse_loop rest start reader)"

definition literal_parse :: "string list \<Rightarrow> StringReader \<Rightarrow> int \<times> StringReader" where
  "literal_parse names reader = literal_parse_loop names (reader_cursor reader) reader"

definition isValidInput :: "('s, 't, 'c, 'm, 'v) NodeKind \<Rightarrow> string \<Rightarrow> bool" where
  "isValidInput k input = (fst (literal_parse (literalNames k) (newStringReader input)) > - 1)"

definition isMe :: "('s, 't, 'c, 'm, 'v) NodeKind \<Rightarrow> string \<Rightarrow> bool" where
  "isMe k nm = (toLowerCase nm \<in> set (literalNames k))"

text \<open>\<open>Array.prototype.join\<close>.\<close>

fun join :: "string \<Rightarrow> string list \<Rightarrow> string" where
  "join sep [] = []"
| "join sep [x] = x"
| "join sep (x # y # ys) = x @ sep @ join sep (y # ys)"

text \<open>\<open>LiteralCommandNode.listSuggestions\<close>; an \<open>undefined\<close> tooltip becomes the default
  \<open>null\<close> of \<open>suggest\<close>.\<close>

definition literal_listSuggestions :: "string list \<Rightarrow> SuggestionsBuilder \<Rightarrow> Suggestions" where
  "literal_listSuggestions names builder =
     (let rem = toLowerCase (remaining builder)
      in build_suggestions
           (fold (\<lambda>literal b.
                    if startsWith (toLowerCase literal) rem
                    then (let other = filter (\<lambda>e. e \<noteq> literal) names
                          in suggest b literal
                               (if length other = 0 then None else Some (join '', '' other)))
                    else b)
              names builder))"

text \<open>\<open>listSuggestions\<close> of a node, by class.\<close>

fun listSuggestions ::
  "('s, 't, 'c, 'm, 'v) NodeKind \<Rightarrow> ('s, 't, 'c, 'm, 'v) SuggestionProvider" where
  "listSuggestions RootCommandNode ctx builder = Inr EMPTY_SUGGESTIONS"
| "listSuggestions (LiteralCommandNode l as) ctx builder =
     Inr (literal_listSuggestions (l # as) builder)"
| "listSuggestions (ArgumentCommandNode n ty custom) ctx builder =
     (case custom of
        Some provider \<Rightarrow> provider ctx builder
      | None \<Rightarrow> listSuggestions_of_type ty ctx builder)"

section \<open>Builders (builder.ts)\<close>








text \<open>
  The abstract class \<open>ArgumentBuilder\<close> and its two subclasses, as a record and its
  extensions. The field \<open>arguments\<close> is a root node of the builder's own, which
  collects the children added with \<open>then\<close>. The field \<open>requirement\<close> is undefined or
  holds a requirement; the record is polymorphic in how that requirement is given:
  as a \<open>RequirementValue\<close>, which is what the field of the builder object holds, or
  as a \<open>Requirement\<close>, with the arrays read out, which is what \<open>build\<close> works with.
\<close>

record ('s, 't, 'c, 'm, 'r) ArgumentBuilder =
  builder_arguments :: NodeRef
  builder_command :: "'c option"
  builder_commandDescription :: "string option"
  builder_requirement :: "'r option"
  builder_target :: "NodeRef option"
  builder_modifier :: "'m option"

record ('s, 't, 'c, 'm, 'r) LiteralArgumentBuilder = "('s, 't, 'c, 'm, 'r) ArgumentBuilder" +
  builder_literal :: string
  builder_aliases :: "string list"

record ('s, 't, 'c, 'm, 'r, 'v) RequiredArgumentBuilder = "('s, 't, 'c, 'm, 'r) ArgumentBuilder" +
  builder_name :: string
  builder_type :: "('s, 't, 'c, 'm, 'v) ArgumentType"
  builder_suggestionsProvider :: "('s, 't, 'c, 'm, 'v) SuggestionProvider option"

definition newLiteralArgumentBuilder ::
  "('s, 't, 'c, 'm, 'v) NodeStore \<Rightarrow> string \<Rightarrow> string list
     \<Rightarrow> ('s, 't, 'c, 'm, 'v) NodeStore \<times> ('s, 't, 'c, 'm, 'r) LiteralArgumentBuilder" where
  "newLiteralArgumentBuilder h l as =
     (let (h1, args) = alloc h newRootCommandNode
      in (h1, \<lparr>builder_arguments = args,
               builder_command = None, builder_commandDescription = None,
               builder_requirement = None, builder_target = None, builder_modifier = None,
               builder_literal = l, builder_aliases = as\<rparr>))"

definition newRequiredArgumentBuilder ::
  "('s, 't, 'c, 'm, 'v) NodeStore \<Rightarrow> string \<Rightarrow> ('s, 't, 'c, 'm, 'v) ArgumentType
     \<Rightarrow> ('s, 't, 'c, 'm, 'v) NodeStore \<times> ('s, 't, 'c, 'm, 'r, 'v) RequiredArgumentBuilder" where
  "newRequiredArgumentBuilder h nm ty =
     (let (h1, args) = alloc h newRootCommandNode
      in (h1, \<lparr>builder_arguments = args,
               builder_command = None, builder_commandDescription = None,
               builder_requirement = None, builder_target = None, builder_modifier = None,
               builder_name = nm, builder_type = ty, builder_suggestionsProvider = None\<rparr>))"

text \<open>The methods of the base class work on every builder.\<close>

definition executes ::
  "('s, 't, 'c, 'm, 'r, 'z) ArgumentBuilder_scheme \<Rightarrow> 'c \<Rightarrow> string option
     \<Rightarrow> ('s, 't, 'c, 'm, 'r, 'z) ArgumentBuilder_scheme" where
  "executes this cmd descr =
     this\<lparr>builder_command := Some cmd, builder_commandDescription := descr\<rparr>"



definition suggests ::
  "('s, 't, 'c, 'm, 'r, 'v) RequiredArgumentBuilder \<Rightarrow> ('s, 't, 'c, 'm, 'v) SuggestionProvider
     \<Rightarrow> ('s, 't, 'c, 'm, 'r, 'v) RequiredArgumentBuilder" where
  "suggests this provider = this\<lparr>builder_suggestionsProvider := Some provider\<rparr>"

text \<open>
  The two \<open>build\<close> methods differ in the node they construct only: \<open>buildNode\<close> is
  their common body, with the class and the class-specific constructor arguments of the
  new node as its last argument. The new node gets the normalized requirement of the
  builder, and every child collected by the builder is added to it. \<open>buildNode\<close> takes
  the builder with its requirement read out.
\<close>

definition buildNode ::
  "(string \<Rightarrow> 'k::linorder) \<Rightarrow> nat \<Rightarrow> ('s, 't, 'c, 'm, 'v) NodeStore
     \<Rightarrow> ('s, 't, 'c, 'm, ('s, 't) Requirement, 'z) ArgumentBuilder_scheme
     \<Rightarrow> ('s, 't, 'c, 'm, 'v) NodeKind
     \<Rightarrow> ('t Error + ('s, 't, 'c, 'm, 'v) NodeStore \<times> NodeRef) option" where
  "buildNode collate fuel h this k =
     (case getNode h (builder_arguments this) of
        None \<Rightarrow> None
      | Some args \<Rightarrow>
          (let (h1, result) =
                 alloc h (newCommandNode k
                   (builder_command this) (builder_commandDescription this)
                   (Some (normalizeRequirement (builder_requirement this)))
                   (builder_target this) (map_option Modifier (builder_modifier this)))
           in case addChild_each collate fuel h1 result (children args) of
                None \<Rightarrow> None
              | Some (Inl e) \<Rightarrow> Some (Inl e)
              | Some (Inr h2) \<Rightarrow> Some (Inr (h2, result))))"

text \<open>\<open>LiteralArgumentBuilder.build\<close>.\<close>

definition build ::
  "(string \<Rightarrow> 'k::linorder) \<Rightarrow> nat \<Rightarrow> ('s, 't, 'c, 'm, 'v) NodeStore
     \<Rightarrow> ('s, 't, 'c, 'm, ('s, 't) Requirement) LiteralArgumentBuilder
     \<Rightarrow> ('t Error + ('s, 't, 'c, 'm, 'v) NodeStore \<times> NodeRef) option" where
  "build collate fuel h this =
     buildNode collate fuel h this
       (LiteralCommandNode (builder_literal this) (builder_aliases this))"

text \<open>\<open>RequiredArgumentBuilder.build\<close>.\<close>

definition build_argument ::
  "(string \<Rightarrow> 'k::linorder) \<Rightarrow> nat \<Rightarrow> ('s, 't, 'c, 'm, 'v) NodeStore
     \<Rightarrow> ('s, 't, 'c, 'm, ('s, 't) Requirement, 'v) RequiredArgumentBuilder
     \<Rightarrow> ('t Error + ('s, 't, 'c, 'm, 'v) NodeStore \<times> NodeRef) option" where
  "build_argument collate fuel h this =
     buildNode collate fuel h this
       (ArgumentCommandNode (builder_name this) (builder_type this)
          (builder_suggestionsProvider this))"




section \<open>Context builders (command.ts, class CommandContextBuilder)\<close>

text \<open>The field \<open>dispatcher\<close>, a reference back to the owning dispatcher that no method
  reads, is left out.\<close>

datatype ('s, 'c, 'm, 'v) CommandContextBuilder = CommandContextBuilder
  (cb_source: 's)
  (cb_rootNode: NodeRef)
  (cb_args: "(string, 'v ParsedArgument) alist")
  (cb_nodes: "(NodeRef \<times> StringRange) list")
  (cb_command: "'c option")
  (cb_child: "('s, 'c, 'm, 'v) CommandContextBuilder option")
  (cb_range: StringRange)
  (cb_modifier: "'m option")

definition newCommandContextBuilder ::
  "'s \<Rightarrow> NodeRef \<Rightarrow> nat \<Rightarrow> ('s, 'c, 'm, 'v) CommandContextBuilder" where
  "newCommandContextBuilder source rootNode start =
     CommandContextBuilder source rootNode DAList.empty [] None None (at start) None"

text \<open>\<open>new Map(entries)\<close>: the entries are set one after the other.\<close>

definition newMap :: "(string \<times> 'a) list \<Rightarrow> (string, 'a) alist" where
  "newMap entries = fold (\<lambda>entry m. DAList.update (fst entry) (snd entry) m) entries DAList.empty"

definition withCommand ::
  "('s, 'c, 'm, 'v) CommandContextBuilder \<Rightarrow> 'c option \<Rightarrow> ('s, 'c, 'm, 'v) CommandContextBuilder" where
  "withCommand this cmd =
     CommandContextBuilder (cb_source this) (cb_rootNode this) (cb_args this) (cb_nodes this)
       cmd (cb_child this) (cb_range this) (cb_modifier this)"

definition withChild ::
  "('s, 'c, 'm, 'v) CommandContextBuilder \<Rightarrow> ('s, 'c, 'm, 'v) CommandContextBuilder
     \<Rightarrow> ('s, 'c, 'm, 'v) CommandContextBuilder" where
  "withChild this child =
     CommandContextBuilder (cb_source this) (cb_rootNode this) (cb_args this) (cb_nodes this)
       (cb_command this) (Some child) (cb_range this) (cb_modifier this)"

definition withArgument ::
  "('s, 'c, 'm, 'v) CommandContextBuilder \<Rightarrow> string \<Rightarrow> 'v ParsedArgument
     \<Rightarrow> ('s, 'c, 'm, 'v) CommandContextBuilder" where
  "withArgument this nm argument =
     CommandContextBuilder (cb_source this) (cb_rootNode this)
       (DAList.update nm argument (cb_args this)) (cb_nodes this)
       (cb_command this) (cb_child this) (cb_range this) (cb_modifier this)"

text \<open>\<open>withNode(node, range)\<close>; the third argument is \<open>node.modifier\<close>.\<close>

definition withNode ::
  "('s, 'c, 'm, 'v) CommandContextBuilder \<Rightarrow> NodeRef \<Rightarrow> 'm option \<Rightarrow> StringRange
     \<Rightarrow> ('s, 'c, 'm, 'v) CommandContextBuilder" where
  "withNode this node node_modifier rng =
     CommandContextBuilder (cb_source this) (cb_rootNode this) (cb_args this)
       (cb_nodes this @ [(node, rng)]) (cb_command this) (cb_child this)
       (encompassing (cb_range this) rng) node_modifier"

text \<open>
  \<open>copy\<close>: a new builder from the constructor, then the five assignments of the source
  in their order (\<open>command\<close>, \<open>args\<close>, \<open>nodes\<close>, \<open>child\<close>, \<open>range\<close>).
\<close>

definition copy :: "('s, 'c, 'm, 'v) CommandContextBuilder \<Rightarrow> ('s, 'c, 'm, 'v) CommandContextBuilder" where
  "copy this =
     (let copy0 = newCommandContextBuilder (cb_source this) (cb_rootNode this)
                    (range_start (cb_range this));
          copy1 = withCommand copy0 (cb_command this);
          copy2 = CommandContextBuilder (cb_source copy1) (cb_rootNode copy1)
                    (newMap (DAList.impl_of (cb_args copy1) @ DAList.impl_of (cb_args this)))
                    (cb_nodes copy1) (cb_command copy1) (cb_child copy1) (cb_range copy1)
                    (cb_modifier copy1);
          copy3 = CommandContextBuilder (cb_source copy2) (cb_rootNode copy2) (cb_args copy2)
                    (cb_nodes copy2 @ cb_nodes this) (cb_command copy2) (cb_child copy2)
                    (cb_range copy2) (cb_modifier copy2);
          copy4 = CommandContextBuilder (cb_source copy3) (cb_rootNode copy3) (cb_args copy3)
                    (cb_nodes copy3) (cb_command copy3) (cb_child this)
                    (cb_range copy3) (cb_modifier copy3);
          copy5 = CommandContextBuilder (cb_source copy4) (cb_rootNode copy4) (cb_args copy4)
                    (cb_nodes copy4) (cb_command copy4) (cb_child copy4)
                    (cb_range this) (cb_modifier copy4)
      in copy5)"

fun build_context ::
  "('s, 'c, 'm, 'v) CommandContextBuilder \<Rightarrow> string \<Rightarrow> ('s, 'c, 'm, 'v) CommandContext" where
  "build_context (CommandContextBuilder source rootNode args nodes cmd child rng md) input =
     CommandContext source input args rootNode nodes rng cmd
       (map_option (\<lambda>c. build_context c input) child) md"

record SuggestionContext =
  parent :: NodeRef
  startPos :: nat

text \<open>The \<open>for\<close> loop of \<open>findSuggestionContext\<close>: the context it returns from inside
  the loop, if any, and \<open>prev\<close> after the loop.\<close>

fun findSuggestionContext_loop ::
  "NodeRef \<Rightarrow> (NodeRef \<times> StringRange) list \<Rightarrow> nat \<Rightarrow> SuggestionContext option \<times> NodeRef" where
  "findSuggestionContext_loop prev [] cursor = (None, prev)"
| "findSuggestionContext_loop prev (node # rest) cursor =
     (let nodeRange = snd node
      in if range_start nodeRange \<le> cursor \<and> cursor \<le> range_end nodeRange
         then (Some \<lparr>parent = prev, startPos = range_start nodeRange\<rparr>, prev)
         else findSuggestionContext_loop (fst node) rest cursor)"

text \<open>\<open>findSuggestionContext\<close>. \<open>prev\<close> is always a node object, so the test
  \<open>if (!prev)\<close> after the loop never throws.\<close>

fun findSuggestionContext ::
  "('s, 'c, 'm, 'v) CommandContextBuilder \<Rightarrow> nat \<Rightarrow> 't Error + SuggestionContext" where
  "findSuggestionContext (CommandContextBuilder source rootNode args nodes cmd child rng md) cursor =
     (if range_start rng \<le> cursor
      then
        (if range_end rng < cursor
         then
           (case child of
              Some c \<Rightarrow> findSuggestionContext c cursor
            | None \<Rightarrow>
                if length nodes > 0
                then (let last_node = last nodes
                      in Inr \<lparr>parent = fst last_node, startPos = range_end (snd last_node) + 1\<rparr>)
                else Inr \<lparr>parent = rootNode, startPos = range_start rng\<rparr>)
         else
           (case findSuggestionContext_loop rootNode nodes cursor of
              (Some found, prev) \<Rightarrow> Inr found
            | (None, prev) \<Rightarrow> Inr \<lparr>parent = prev, startPos = range_start rng\<rparr>))
      else Inl (JsError ''Can't find node before cursor''))"


section \<open>The dispatcher (command.ts, class CommandDispatcher)\<close>

record ('s, 't, 'c, 'm, 'v) ParseResults =
  pr_context :: "('s, 'c, 'm RedirectModifier, 'v) CommandContextBuilder"
  pr_exceptions :: "(NodeRef \<times> 't Error) list"
  pr_reader :: StringReader

record CommandDispatcher =
  root :: NodeRef

definition register ::
  "(string \<Rightarrow> 'k::linorder) \<Rightarrow> nat \<Rightarrow> CommandDispatcher \<Rightarrow> ('s, 't, 'c, 'm, 'v) NodeStore
     \<Rightarrow> ('s, 't, 'c, 'm, ('s, 't) Requirement) LiteralArgumentBuilder
     \<Rightarrow> ('t Error + ('s, 't, 'c, 'm, 'v) NodeStore \<times> NodeRef) option" where
  "register collate fuel this h cmd =
     (case build collate fuel h cmd of
        None \<Rightarrow> None
      | Some (Inl e) \<Rightarrow> Some (Inl e)
      | Some (Inr (h1, built)) \<Rightarrow>
          (case addChild collate fuel h1 (root this) built of
             None \<Rightarrow> None
           | Some (Inl e) \<Rightarrow> Some (Inl e)
           | Some (Inr h2) \<Rightarrow> Some (Inr (h2, built))))"

definition unregister ::
  "CommandDispatcher \<Rightarrow> ('s, 't, 'c, 'm, 'v) NodeStore \<Rightarrow> NodeRef
     \<Rightarrow> ('s, 't, 'c, 'm, 'v) NodeStore option" where
  "unregister this h cmd = removeChild h (root this) cmd"


subsection \<open>executeResults\<close>

datatype 't ExecuteResultWrapper = success "'t option" | error "'t Error"

text \<open>What \<open>executeResults\<close> does besides returning: each call of an executor and each
  notification of the dispatcher's \<open>consumer\<close>, in order.\<close>

datatype ('s, 'c, 'm, 'v) Effect =
    Executed "('s, 'c, 'm, 'v) CommandContext"
  | Consumer "('s, 'c, 'm, 'v) CommandContext" bool

text \<open>The statements after the \<open>while\<close> loop.\<close>

definition executeResults_finish ::
  "StringReader \<Rightarrow> ('s, 'c, 'm, 'v) CommandContext \<Rightarrow> bool \<Rightarrow> 't ExecuteResultWrapper list
     \<Rightarrow> ('s, 'c, 'm, 'v) Effect list
     \<Rightarrow> ('t Error + 't ExecuteResultWrapper list) \<times> ('s, 'c, 'm, 'v) Effect list" where
  "executeResults_finish reader original foundCommand result effects =
     (if \<not> foundCommand
      then (Inl (UnknownSomethingError reader ''command''), effects @ [Consumer original False])
      else (Inr result, effects))"

text \<open>
  The \<open>while (context)\<close> loop. \<open>run\<close> calls an executor and \<open>modify\<close> a redirect
  modifier on a context; both return the value or what was thrown. When \<open>next\<close> stays
  undefined the loop ends. The loop terminates because each round moves to the child
  of the current context.
\<close>

function executeResults_loop ::
  "('c \<Rightarrow> ('s, 'c, 'm, 'v) CommandContext \<Rightarrow> 't Error + 't option)
     \<Rightarrow> ('m \<Rightarrow> ('s, 'c, 'm, 'v) CommandContext \<Rightarrow> 't Error + 's)
     \<Rightarrow> StringReader \<Rightarrow> ('s, 'c, 'm, 'v) CommandContext
     \<Rightarrow> ('s, 'c, 'm, 'v) CommandContext \<Rightarrow> bool \<Rightarrow> 't ExecuteResultWrapper list
     \<Rightarrow> ('s, 'c, 'm, 'v) Effect list
     \<Rightarrow> ('t Error + 't ExecuteResultWrapper list) \<times> ('s, 'c, 'm, 'v) Effect list" where
  "executeResults_loop run modify reader original context foundCommand result effects =
     (case ctx_child context of
        Some child \<Rightarrow>
          if hasNodes child
          then
            (case ctx_modifier context of
               Some md \<Rightarrow>
                 (case modify md context of
                    Inl e \<Rightarrow> (Inl e, effects @ [Consumer context False])
                  | Inr source \<Rightarrow>
                      executeResults_loop run modify reader original (copyFor child source)
                        True result effects)
             | None \<Rightarrow>
                 executeResults_loop run modify reader original
                   (copyFor child (ctx_source context)) True result effects)
          else executeResults_finish reader original foundCommand result effects
      | None \<Rightarrow>
          (case ctx_command context of
             Some cmd \<Rightarrow>
               (case run cmd context of
                  Inr val \<Rightarrow>
                    executeResults_finish reader original True (result @ [success val])
                      (effects @ [Executed context, Consumer context True])
                | Inl e \<Rightarrow> (Inl e, effects @ [Executed context, Consumer context False]))
           | None \<Rightarrow> executeResults_finish reader original foundCommand result effects))"
  by pat_completeness auto
termination
  apply (relation "measure (\<lambda>(run, modify, reader, original, context, foundCommand, result, effects).
        size context)")
    apply simp
   apply (case_tac "context"; case_tac x2; simp add: copyFor_def)
  apply (case_tac "context"; case_tac x2; simp add: copyFor_def)
  done

text \<open>\<open>executeResults\<close> of \<open>src/command.ts\<close>. \<open>exceptions.values().next().value\<close> is the
  value of the first entry of the map.\<close>

definition executeResults ::
  "('c \<Rightarrow> ('s, 'c, 'm RedirectModifier, 'v) CommandContext \<Rightarrow> 't Error + 't option)
     \<Rightarrow> ('m RedirectModifier \<Rightarrow> ('s, 'c, 'm RedirectModifier, 'v) CommandContext \<Rightarrow> 't Error + 's)
     \<Rightarrow> ('s, 't, 'c, 'm, 'v) ParseResults
     \<Rightarrow> ('t Error + 't ExecuteResultWrapper list)
          \<times> ('s, 'c, 'm RedirectModifier, 'v) Effect list" where
  "executeResults run modify parse =
     (if canReadAnything (pr_reader parse)
      then
        (if length (pr_exceptions parse) = 1
         then (Inl (snd (hd (pr_exceptions parse))), [])
         else if isEmpty (cb_range (pr_context parse))
         then (Inl (UnknownSomethingError (pr_reader parse) ''argument''), [])
         else (Inl (UnknownSomethingError (pr_reader parse) ''command''), []))
      else
        (let cmd = reader_string (pr_reader parse);
             original = build_context (pr_context parse) cmd
         in executeResults_loop run modify (pr_reader parse) original original False [] []))"


subsection \<open>getCompletionSuggestions\<close>

text \<open>
  The loop over \<open>parent.children\<close>. A child whose requirement fails without
  \<open>showInTree\<close> is skipped; what a child's \<open>listSuggestions\<close> throws is swallowed and
  counts as the empty \<open>Suggestions\<close>.
\<close>

fun getCompletionSuggestions_loop ::
  "nat \<Rightarrow> ('s, 't, 'c, 'm, 'v) NodeStore \<Rightarrow> ('s, 'c, 'm RedirectModifier, 'v) CommandContext
     \<Rightarrow> string \<Rightarrow> nat \<Rightarrow> 's \<Rightarrow> NodeRef list \<Rightarrow> Suggestions list \<Rightarrow> Suggestions list option" where
  "getCompletionSuggestions_loop fuel h ctx truncatedInput start source [] futures = Some futures"
| "getCompletionSuggestions_loop fuel h ctx truncatedInput start source (node # rest) futures =
     (case checkRequirement fuel h node source of
        None \<Rightarrow> None
      | Some failure \<Rightarrow>
          if failure \<noteq> None \<and> showInTree (the failure) \<noteq> Some True
          then getCompletionSuggestions_loop fuel h ctx truncatedInput start source rest futures
          else
            (case getNode h node of
               None \<Rightarrow> None
             | Some n \<Rightarrow>
                 (let builder = newSuggestionsBuilder truncatedInput start
                        \<lparr>md_prefix = Some (usage (kind n)),
                         md_suffix = commandDescription n,
                         md_order = None,
                         md_suggestionType =
                           Some (if isLiteral (kind n) then literal_suggestion
                                 else argument_suggestion),
                         md_commandNode = Some node\<rparr>;
                      nodeSuggestions =
                        (case listSuggestions (kind n) ctx builder of
                           Inr s \<Rightarrow> s
                         | Inl ignored \<Rightarrow> EMPTY_SUGGESTIONS)
                  in getCompletionSuggestions_loop fuel h ctx truncatedInput start source rest
                       (futures @ [nodeSuggestions]))))"

definition getCompletionSuggestions ::
  "nat \<Rightarrow> ('s, 't, 'c, 'm, 'v) NodeStore \<Rightarrow> ('s, 't, 'c, 'm, 'v) ParseResults \<Rightarrow> nat \<Rightarrow> 's
     \<Rightarrow> ('t Error + Suggestions) option" where
  "getCompletionSuggestions fuel h parse cursor source =
     (let context = pr_context parse
      in case findSuggestionContext context cursor of
           Inl e \<Rightarrow> Some (Inl e)
         | Inr nodeBeforeCursor \<Rightarrow>
             (let start = min (startPos nodeBeforeCursor) cursor;
                  fullInput = reader_string (pr_reader parse);
                  truncatedInput = substring fullInput 0 cursor
              in case getNode h (parent nodeBeforeCursor) of
                   None \<Rightarrow> None
                 | Some p \<Rightarrow>
                     (case getCompletionSuggestions_loop fuel h
                             (build_context context truncatedInput) truncatedInput start source
                             (children p) [] of
                        None \<Rightarrow> None
                      | Some futures \<Rightarrow> Some (Inr (merge fullInput futures)))))"


subsection \<open>The end of parseNodes\<close>

text \<open>The comparator that \<open>parseNodes\<close> passes to \<open>potentials.sort\<close>.\<close>

definition potentialCompare ::
  "('s, 't, 'c, 'm, 'v) ParseResults \<Rightarrow> ('s, 't, 'c, 'm, 'v) ParseResults \<Rightarrow> int" where
  "potentialCompare a b =
     (if \<not> canReadAnything (pr_reader a) \<and> canReadAnything (pr_reader b) then - 1
      else if canReadAnything (pr_reader a) \<and> \<not> canReadAnything (pr_reader b) then 1
      else if length (pr_exceptions a) = 0 \<and> length (pr_exceptions b) \<noteq> 0 then - 1
      else if length (pr_exceptions a) \<noteq> 0 \<and> length (pr_exceptions b) = 0 then 1
      else 0)"

text \<open>
  What \<open>parseNodes\<close> returns once its loop over the relevant children has ended without
  following a redirect: \<open>potentials\<close>, \<open>contextSoFar\<close>, \<open>originalReader\<close> and \<open>errors\<close>
  are the values of these variables after the loop.
\<close>

definition parseNodes_result ::
  "('s, 't, 'c, 'm, 'v) ParseResults list \<Rightarrow> ('s, 'c, 'm RedirectModifier, 'v) CommandContextBuilder
     \<Rightarrow> StringReader \<Rightarrow> (NodeRef \<times> 't Error) list \<Rightarrow> ('s, 't, 'c, 'm, 'v) ParseResults" where
  "parseNodes_result potentials contextSoFar originalReader errors =
     (if length potentials \<noteq> 0
      then
        (let sorted = (if length potentials > 1 then sortWith potentialCompare potentials
                       else potentials)
         in hd sorted)
      else \<lparr>pr_context = contextSoFar, pr_exceptions = errors, pr_reader = originalReader\<rparr>)"

text \<open>
  The order of the tie-break as the specification words it: \<open>a\<close> comes before \<open>b\<close> when
  \<open>a\<close> has no leftover input and \<open>b\<close> has, or when they agree on that and \<open>a\<close> has no
  errors and \<open>b\<close> has. \<open>potentialRank\<close> is the pair the order compares, first component
  first (\<open>False\<close> is less than \<open>True\<close>).
\<close>

definition comesBefore ::
  "('s, 't, 'c, 'm, 'v) ParseResults \<Rightarrow> ('s, 't, 'c, 'm, 'v) ParseResults \<Rightarrow> bool" where
  "comesBefore a b =
     (if canReadAnything (pr_reader a) = canReadAnything (pr_reader b)
      then pr_exceptions a = [] \<and> pr_exceptions b \<noteq> []
      else canReadAnything (pr_reader b))"

definition potentialRank :: "('s, 't, 'c, 'm, 'v) ParseResults \<Rightarrow> bool \<times> bool" where
  "potentialRank p = (canReadAnything (pr_reader p), pr_exceptions p \<noteq> [])"


subsection \<open>Well-formed children maps\<close>

text \<open>
  What \<open>addChild\<close> guarantees for the map \<open>childrenMap\<close> of a node it fills: there is one
  entry per name, each entry is keyed by the name of the node it holds, that node is in
  the store and it is not a root node.
\<close>

definition childrenMap_ok ::
  "('s, 't, 'c, 'm, 'v) NodeStore \<Rightarrow> (string \<times> NodeRef) list \<Rightarrow> bool" where
  "childrenMap_ok h m =
     (distinct (map fst m)
      \<and> list_all (\<lambda>entry. case getNode h (snd entry) of
                             None \<Rightarrow> False
                           | Some n \<Rightarrow> kind n \<noteq> RootCommandNode \<and> name n = fst entry) m)"

text \<open>The pair by which \<open>compareTo\<close> orders the entries of a children map: literal
  nodes first, then the collation key of \<open>sortedKey\<close>.\<close>

definition childKey ::
  "(string \<Rightarrow> 'k::linorder) \<Rightarrow> ('s, 't, 'c, 'm, 'v) NodeStore \<Rightarrow> string \<times> NodeRef \<Rightarrow> bool \<times> 'k" where
  "childKey collate h e =
     (\<not> isLiteral (kindAt h (snd e)), collate (sortedKey (kindAt h (snd e))))"


subsection \<open>Nodes that answer through the builder\<close>

text \<open>
  The node kinds whose \<open>listSuggestions\<close> is code of the library that adds every
  suggestion with \<open>suggest\<close> on the builder it is handed: root and literal nodes, and
  argument nodes without a suggestion provider of their own whose type inherits
  \<open>ArgumentType.listSuggestions\<close> or is the boolean type.
\<close>

definition answersThroughBuilder :: "('s, 't, 'c, 'm, 'v) NodeKind \<Rightarrow> bool" where
  "answersThroughBuilder k =
     (case k of
        ArgumentCommandNode n ty custom \<Rightarrow>
          custom = None
          \<and> (type_listSuggestions ty = None
               \<or> type_listSuggestions ty = Some BoolArgumentType_listSuggestions)
      | _ \<Rightarrow> True)"


section \<open>Example inputs\<close>

text \<open>A sample collation for \<open>localeCompare\<close>: strings compare by their character
  codes.\<close>

definition codeUnits :: "string \<Rightarrow> nat list" where
  "codeUnits s = map of_char s"

text \<open>Requirements over the one-element source type: one that permits, and one that
  denies with a reason.\<close>

definition permitted :: "(unit, string) Requirement" where
  "permitted = Normalized (\<lambda>user. None)"

definition denied :: "string \<Rightarrow> (unit, string) Requirement" where
  "denied why = Normalized (\<lambda>user. Some \<lparr>showInTree = None, reason = Some why\<rparr>)"

text \<open>The tree \<open>admin reload\<close>: the literal \<open>admin\<close> has no executor and no requirement
  of its own; its only child \<open>reload\<close> has an executor and a requirement that denies
  every source.\<close>

definition guarded_tree :: "(unit, string, string, unit, unit) NodeStore" where
  "guarded_tree =
     [(newCommandNode (LiteralCommandNode ''admin'' []) None None (Some requireNothing) None None)
        \<lparr>childrenMap := [(''reload'', 1)], literals := [(''reload'', 1)]\<rparr>,
      newCommandNode (LiteralCommandNode ''reload'' []) (Some ''reload-executor'') None
        (Some (normalizeDefined (denied ''operators only''))) None None]"

text \<open>The result of parsing the input \<open>d\<close> against a root that matched no node: the
  context is the one \<open>parse\<close> starts from, the reader is still at position 0 and no
  error was recorded.\<close>

definition nothing_matched :: "(unit, string, string, unit, unit) ParseResults" where
  "nothing_matched =
     \<lparr>pr_context = newCommandContextBuilder () 0 0, pr_exceptions = [],
      pr_reader = newStringReader ''d''\<rparr>"






text \<open>Four potential parses of the input \<open>ab c\<close>: one that stopped after \<open>ab\<close>, one
  that consumed everything but recorded an error, and two that consumed everything
  without error (they differ in the root node of their context).\<close>

definition potential_leftover :: "(unit, string, string, unit, unit) ParseResults" where
  "potential_leftover =
     \<lparr>pr_context = newCommandContextBuilder () 0 0, pr_exceptions = [],
      pr_reader = \<lparr>reader_string = ''ab c'', reader_cursor = 2\<rparr>\<rparr>"

definition potential_errors :: "(unit, string, string, unit, unit) ParseResults" where
  "potential_errors =
     \<lparr>pr_context = newCommandContextBuilder () 0 0,
      pr_exceptions = [(3, JsError ''Not a user'')],
      pr_reader = \<lparr>reader_string = ''ab c'', reader_cursor = 4\<rparr>\<rparr>"

definition potential_clean :: "(unit, string, string, unit, unit) ParseResults" where
  "potential_clean =
     \<lparr>pr_context = newCommandContextBuilder () 1 0, pr_exceptions = [],
      pr_reader = \<lparr>reader_string = ''ab c'', reader_cursor = 4\<rparr>\<rparr>"

definition potential_clean_later :: "(unit, string, string, unit, unit) ParseResults" where
  "potential_clean_later =
     \<lparr>pr_context = newCommandContextBuilder () 2 0, pr_exceptions = [],
      pr_reader = \<lparr>reader_string = ''ab c'', reader_cursor = 4\<rparr>\<rparr>"

text \<open>
  A dispatcher whose root (handle 0) has the one command \<open>b\<close> (handle 1), and a builder
  for the literal \<open>a\<close> that has collected the child \<open>x\<close> (handle 3) in its own root
  (handle 2).
\<close>

definition registry :: "(unit, string, string, unit, unit) NodeStore" where
  "registry =
     [newRootCommandNode\<lparr>childrenMap := [(''b'', 1)], literals := [(''b'', 1)]\<rparr>,
      newCommandNode (LiteralCommandNode ''b'' []) (Some ''run-b'') None (Some requireNothing)
        None None,
      newRootCommandNode\<lparr>childrenMap := [(''x'', 3)], literals := [(''x'', 3)]\<rparr>,
      newCommandNode (LiteralCommandNode ''x'' []) (Some ''run-x'') None (Some requireNothing)
        None None]"

definition builder_a ::
  "(unit, string, string, unit, (unit, string) Requirement) LiteralArgumentBuilder" where
  "builder_a =
     \<lparr>builder_arguments = 2,
      builder_command = None, builder_commandDescription = None,
      builder_requirement = None, builder_target = None, builder_modifier = None,
      builder_literal = ''a'', builder_aliases = []\<rparr>"

text \<open>
  A dispatcher whose root (handle 0) already has the command \<open>a\<close> (handle 1, with an
  executor), and a fresh builder for the literal \<open>a\<close> whose own root is handle 2.
\<close>

definition registry_with_a :: "(unit, string, string, unit, unit) NodeStore" where
  "registry_with_a =
     [newRootCommandNode\<lparr>childrenMap := [(''a'', 1)], literals := [(''a'', 1)]\<rparr>,
      newCommandNode (LiteralCommandNode ''a'' []) (Some ''run-a'') None (Some requireNothing)
        None None,
      newRootCommandNode]"

definition second_builder_a ::
  "(unit, string, string, unit, (unit, string) Requirement) LiteralArgumentBuilder" where
  "second_builder_a =
     \<lparr>builder_arguments = 2,
      builder_command = None, builder_commandDescription = None,
      builder_requirement = None, builder_target = None, builder_modifier = None,
      builder_literal = ''a'', builder_aliases = []\<rparr>"

text \<open>
  A root (handle 0) with the commands \<open>ki\<close> (handle 1) and \<open>kick\<close> (handle 2), and the
  result of parsing the input \<open>ki\<close>: the literal \<open>ki\<close> matched the range from 0 to 2 and
  the reader is at the end.
\<close>

definition kick_tree :: "(unit, string, string, unit, unit) NodeStore" where
  "kick_tree =
     [newRootCommandNode\<lparr>childrenMap := [(''ki'', 1), (''kick'', 2)],
                          literals := [(''ki'', 1), (''kick'', 2)]\<rparr>,
      newCommandNode (LiteralCommandNode ''ki'' []) (Some ''run-ki'') None (Some requireNothing)
        None None,
      newCommandNode (LiteralCommandNode ''kick'' []) (Some ''run-kick'') None
        (Some requireNothing) None None]"

definition typed_ki :: "(unit, string, string, unit, unit) ParseResults" where
  "typed_ki =
     \<lparr>pr_context = withCommand (withNode (newCommandContextBuilder () 0 0) 1 None (between 0 2))
                     (Some ''run-ki''),
      pr_exceptions = [],
      pr_reader = \<lparr>reader_string = ''ki'', reader_cursor = 2\<rparr>\<rparr>"

text \<open>
  A suggestion provider as a caller may pass to \<open>suggests\<close>: it offers the names of the
  known users, whatever has been typed, in a \<open>Suggestions\<close> object it makes itself. The
  tree has one argument node \<open>user\<close> (handle 1) with this provider, and \<open>typed_bob\<close> is
  the result of parsing the input \<open>bob\<close>.
\<close>

definition known_users :: "(unit, string, string, unit, string) SuggestionProvider" where
  "known_users ctx builder =
     (let rng = between (sb_start builder) (length (sb_input builder))
      in Inr \<lparr>ss_range = rng,
              suggestions = map (\<lambda>user. \<lparr>s_range = rng, s_metadata = sb_metadata builder,
                                           s_text = user, s_tooltip = None\<rparr>)
                              [''alice'', ''bob'']\<rparr>)"

definition user_tree :: "(unit, string, string, unit, string) NodeStore" where
  "user_tree =
     [newRootCommandNode\<lparr>childrenMap := [(''user'', 1)], arguments := [(''user'', 1)]\<rparr>,
      newCommandNode
        (ArgumentCommandNode ''user'' \<lparr>examples = [], type_listSuggestions = None\<rparr>
           (Some known_users))
        (Some ''run'') None (Some requireNothing) None None]"

definition typed_bob :: "(unit, string, string, unit, string) ParseResults" where
  "typed_bob =
     \<lparr>pr_context =
        withCommand
          (withNode
             (withArgument (newCommandContextBuilder () 0 0) ''user''
                \<lparr>pa_range = between 0 3, pa_result = ''bob''\<rparr>)
             1 None (between 0 3))
          (Some ''run''),
      pr_exceptions = [],
      pr_reader = \<lparr>reader_string = ''bob'', reader_cursor = 3\<rparr>\<rparr>"

text \<open>The result of parsing the input \<open>a x\<close> against a root with the one command \<open>a\<close>
  (handle 1, no children): \<open>a\<close> matched the range from 0 to 1, and the reader stands
  before the unread \<open>x\<close>; no error was recorded.\<close>

definition a_then_unknown :: "(unit, string, string, unit, unit) ParseResults" where
  "a_then_unknown =
     \<lparr>pr_context = withCommand (withNode (newCommandContextBuilder () 0 0) 1 None (between 0 1))
                     (Some ''run-a''),
      pr_exceptions = [],
      pr_reader = \<lparr>reader_string = ''a x'', reader_cursor = 2\<rparr>\<rparr>"


section \<open>Properties of the requirement combinators\<close>

lemma requireOr_run_eq:
  "requireOr_run fs s acc = (case acc of Some a \<Rightarrow> Some a | None \<Rightarrow> requireAnd_run fs s)"
  by (induction fs arbitrary: acc) (auto split: option.splits)

lemma requireAnd_run_None:
  "(requireAnd_run fs s = None) = (\<forall>f\<in>set fs. f s = None)"
  by (induction fs) (auto split: option.splits)

lemma requireAnd_run_first:
  "i < length fs \<Longrightarrow> \<forall>j<i. (fs ! j) s = None \<Longrightarrow> (fs ! i) s = Some x
     \<Longrightarrow> requireAnd_run fs s = Some x"
proof (induction fs arbitrary: i)
  case Nil
  then show ?case by simp
next
  case (Cons g gs)
  show ?case
  proof (cases i)
    case 0
    with Cons.prems show ?thesis by simp
  next
    case (Suc k)
    from Cons.prems Suc have g: "g s = None" by auto
    have "requireAnd_run gs s = Some x"
    proof (rule Cons.IH[of k])
      show "k < length gs" using Cons.prems Suc by simp
      show "\<forall>j<k. (gs ! j) s = None" using Cons.prems(2) Suc by auto
      show "(gs ! k) s = Some x" using Cons.prems(3) Suc by simp
    qed
    with g show ?thesis by simp
  qed
qed

text \<open>
  Claim C9. For every list of requirements \<open>rs\<close> and every source \<open>s\<close>, the requirement
  built by \<open>requireOr rs\<close> is permitted for \<open>s\<close> exactly when every element of \<open>rs\<close> is
  permitted for \<open>s\<close>; when an element fails, the result is the failure of the first
  failing element in list order, whatever the later elements say. \<open>requireOr\<close> is a
  conjunction.
\<close>

theorem requireOr_conjunction:
  "(requireOr rs s = None \<longleftrightarrow> (\<forall>r\<in>set rs. normalizeDefined r s = None)) \<and>
   (\<forall>i x. i < length rs \<and> (\<forall>j<i. normalizeDefined (rs ! j) s = None)
            \<and> normalizeDefined (rs ! i) s = Some x
      \<longrightarrow> requireOr rs s = Some x)"
proof (intro conjI allI impI)
  show "requireOr rs s = None \<longleftrightarrow> (\<forall>r\<in>set rs. normalizeDefined r s = None)"
    by (simp add: requireOr_def requireOr_run_eq requireAnd_run_None)
next
  fix i x
  assume a: "i < length rs \<and> (\<forall>j<i. normalizeDefined (rs ! j) s = None)
            \<and> normalizeDefined (rs ! i) s = Some x"
  have "requireAnd_run (map normalizeDefined rs) s = Some x"
    by (rule requireAnd_run_first[of i]) (use a in auto)
  then show "requireOr rs s = Some x"
    by (simp add: requireOr_def requireOr_run_eq)
qed

text \<open>At \<open>[permitted, denied a, permitted, denied b]\<close> the first failing element is at
  index 1 and \<open>requireOr\<close> returns its failure although two elements permit; at
  \<open>[permitted, permitted]\<close> it permits.\<close>

theorem requireOr_conjunction_witness:
  "normalizeDefined ([permitted, denied ''a'', permitted, denied ''b''] ! 0) () = None
   \<and> normalizeDefined ([permitted, denied ''a'', permitted, denied ''b''] ! 1) ()
       = Some \<lparr>showInTree = None, reason = Some ''a''\<rparr>
   \<and> normalizeDefined ([permitted, denied ''a'', permitted, denied ''b''] ! 2) () = None
   \<and> requireOr [permitted, denied ''a'', permitted, denied ''b''] ()
       = Some \<lparr>showInTree = None, reason = Some ''a''\<rparr>
   \<and> normalizeDefined permitted () = None
   \<and> requireOr [permitted, permitted] () = None"
proof -
  let ?rs = "[permitted, denied ''a'', permitted, denied ''b'']"
  let ?f = "\<lparr>showInTree = None, reason = Some ''a''\<rparr>"
  have h0: "normalizeDefined (?rs ! 0) () = None"
    by (simp add: permitted_def)
  have h1: "\<forall>j<(1::nat). normalizeDefined (?rs ! j) () = None"
    by (simp add: permitted_def)
  have h2: "normalizeDefined (?rs ! 1) () = Some ?f"
    by (simp add: denied_def)
  have h2': "normalizeDefined (?rs ! 2) () = None"
    by (simp add: permitted_def)
  have h3: "(1::nat) < length ?rs" by simp
  have first: "requireOr ?rs () = Some ?f"
    using requireOr_conjunction[of ?rs "()"] h1 h2 h3 by blast
  have h4: "\<forall>r\<in>set [permitted, permitted]. normalizeDefined r () = None"
    by (simp add: permitted_def)
  have h5: "normalizeDefined permitted () = None"
    by (simp add: permitted_def)
  have none: "requireOr [permitted, permitted] () = None"
    using requireOr_conjunction[of "[permitted, permitted]" "()"] h4 by blast
  from h0 h2 h2' first h5 none show ?thesis by blast
qed


section \<open>Properties of contexts and context builders\<close>

text \<open>
  Claim C8. For every \<open>CommandContext\<close>, \<open>getArguments\<close> returns an object with no keys
  at all, whatever the map \<open>parsedArguments\<close> holds; a parsed value is reached through
  \<open>getArgumentIfExists\<close> (and \<open>getArgument\<close>), which look the name up in the map.
\<close>

theorem getArguments_empty:
  "getArguments ctx = []
   \<and> getArgumentIfExists ctx n = map_option pa_result (DAList.lookup (ctx_parsedArguments ctx) n)"
  by (simp add: getArguments_def forIn_def keys_def getArgumentIfExists_def split: option.splits)

lemma fold_update_fresh:
  "distinct (map fst (ys @ xs)) \<Longrightarrow>
   fold (\<lambda>entry m. AList.update (fst entry) (snd entry) m) xs ys = ys @ xs"
proof (induction xs arbitrary: ys)
  case Nil
  then show ?case by simp
next
  case (Cons x xs)
  have fresh: "fst x \<notin> fst ` set ys" using Cons.prems by auto
  have upd: "AList.update (fst x) (snd x) ys = ys @ [x]"
    using fresh by (induction ys) auto
  have "distinct (map fst ((ys @ [x]) @ xs))" using Cons.prems by simp
  from Cons.IH[OF this] upd show ?case by simp
qed

lemma impl_of_fold_update:
  "DAList.impl_of (fold (\<lambda>entry m. DAList.update (fst entry) (snd entry) m) xs m)
     = fold (\<lambda>entry m. AList.update (fst entry) (snd entry) m) xs (DAList.impl_of m)"
  by (induction xs arbitrary: m) (simp_all add: DAList.update.rep_eq)

lemma newMap_impl_of: "newMap (DAList.impl_of m) = m"
proof -
  have "DAList.impl_of (newMap (DAList.impl_of m)) = DAList.impl_of m"
    unfolding newMap_def impl_of_fold_update
    using fold_update_fresh[of "[]" "DAList.impl_of m"]
    by (simp add: DAList.empty.rep_eq)
  then show ?thesis by (simp add: DAList.impl_of_inject)
qed

text \<open>
  Claim C10. For every \<open>CommandContextBuilder\<close> \<open>b\<close>, \<open>copy b\<close> has the source, the
  command, the argument map, the list of traversed nodes, the child and the range of
  \<open>b\<close> (and its root node), and its redirect modifier is unset, whatever the modifier of
  \<open>b\<close> is.
\<close>

theorem copy_drops_modifier:
  "cb_source (copy b) = cb_source b \<and> cb_rootNode (copy b) = cb_rootNode b
   \<and> cb_command (copy b) = cb_command b \<and> cb_args (copy b) = cb_args b
   \<and> cb_nodes (copy b) = cb_nodes b \<and> cb_child (copy b) = cb_child b
   \<and> cb_range (copy b) = cb_range b \<and> cb_modifier (copy b) = None"
  by (simp add: copy_def Let_def newCommandContextBuilder_def withCommand_def
        DAList.empty.rep_eq newMap_impl_of)


section \<open>Properties of literal nodes\<close>

text \<open>A literal node accepts each of its names that has no capital letter, alone and
  followed by the separator and more input.\<close>

lemma literal_parse_loop_own_name:
  assumes "m \<in> set names" and "toLowerCase m = m" and "rest = [] \<or> take 1 rest = '' ''"
  shows "fst (literal_parse_loop names 0 \<lparr>reader_string = m @ rest, reader_cursor = 0\<rparr>) > - 1"
  using assms(1)
proof (induction names)
  case Nil
  then show ?case by simp
next
  case (Cons n ns)
  let ?r = "\<lparr>reader_string = m @ rest, reader_cursor = 0\<rparr>"
  show ?case
  proof (cases "canRead ?r (length n)
                \<and> toLowerCase (substring (reader_string ?r) 0 (0 + length n)) = n
                \<and> (\<not> canReadAnything (?r\<lparr>reader_cursor := 0 + length n\<rparr>)
                     \<or> peek (?r\<lparr>reader_cursor := 0 + length n\<rparr>) = '' '')")
    case True
    then show ?thesis by (simp add: Let_def)
  next
    case False
    have notm: "n \<noteq> m"
    proof
      assume "n = m"
      with False assms(2,3) show False
        by (auto simp: canRead_def canReadAnything_def peek_def substring_def)
    qed
    with Cons.prems have "m \<in> set ns" by simp
    from Cons.IH[OF this] False show ?thesis
      by (auto simp: Let_def)
  qed
qed

lemma isValidInput_own_lowercase_name:
  assumes "m \<in> set (l # as)" and "toLowerCase m = m"
  shows "isValidInput (LiteralCommandNode l as) m
         \<and> isValidInput (LiteralCommandNode l as) (m @ '' extra'')"
  using literal_parse_loop_own_name[OF assms, of "[]"]
        literal_parse_loop_own_name[OF assms, of "'' extra''"]
  by (simp add: isValidInput_def literalNames_def literal_parse_def newStringReader_def)

text \<open>
  Claim C5 says that a literal node accepts each of its own names \<open>m\<close>, alone and
  followed by \<open>" extra"\<close>. \<open>_parse\<close> lower-cases the input but compares it with the
  name as it was given, so a node whose name has a capital letter rejects that very
  name: the node built from \<open>["Foo"]\<close> does not accept \<open>Foo\<close>.
\<close>

theorem literal_with_capital_rejects_own_name:
  "isValidInput (LiteralCommandNode ''Foo'' []) ''Foo'' = False"
  by code_simp


section \<open>Properties of the dispatcher\<close>

text \<open>
  Claim C1 says that \<open>executeResults\<close>, given a parse result with unread input, throws
  the sole recorded exception if there is exactly one, and otherwise an unknown-command
  error if no nodes were matched and an unknown-argument error if some were. The source
  has the two errors the other way round. For \<open>nothing_matched\<close> (input \<open>d\<close>, no node
  matched, no exception recorded) it throws \<open>Unknown argument\<close>; for \<open>a_then_unknown\<close>
  (input \<open>a x\<close>, the node \<open>a\<close> matched, no exception recorded) it throws
  \<open>Unknown command\<close>. In both cases no executor runs and no consumer is notified.
\<close>

theorem unread_input_reports_swapped_errors:
  "executeResults run modify nothing_matched
     = (Inl (UnknownSomethingError (newStringReader ''d'') ''argument''), [])
   \<and> executeResults run modify a_then_unknown
     = (Inl (UnknownSomethingError \<lparr>reader_string = ''a x'', reader_cursor = 2\<rparr> ''command''), [])"
  by (simp add: executeResults_def nothing_matched_def a_then_unknown_def canReadAnything_def
        canRead_def newStringReader_def newCommandContextBuilder_def isEmpty_def at_def
        withCommand_def withNode_def between_def encompassing_def)


section \<open>Properties of checkRequirement\<close>

text \<open>Whenever \<open>checkRequirement\<close> returns, it returns what the node's own requirement
  returns: the loop over the children, and with it the redirect, can only end in
  \<open>undefined\<close>.\<close>

lemma checkRequirement_children_permits:
  "checkRequirement_children fuel h cs source = Some r \<Longrightarrow> r = None"
  by (induction cs) (auto split: option.splits)

lemma checkRequirement_own_requirement_decides:
  "checkRequirement fuel h this source = Some r \<Longrightarrow> getNode h this = Some n \<Longrightarrow>
     r = (case requirement n of None \<Rightarrow> None | Some req \<Rightarrow> req source)"
  by (cases fuel)
     (auto split: option.splits if_splits dest: checkRequirement_children_permits)

text \<open>
  Claim C2 says that \<open>checkRequirement\<close>, for a node whose own requirement passes,
  returns a requirement failure when the node has no executor and its redirect target
  and every child are denied. In \<open>guarded_tree\<close> the only child of \<open>admin\<close> is denied
  (first conjunct), \<open>admin\<close> has neither executor nor redirect, and \<open>checkRequirement\<close>
  on \<open>admin\<close> returns \<open>undefined\<close>, that is, permitted (second conjunct).
\<close>

theorem denied_child_leaves_parent_permitted:
  "checkRequirement (Suc 0) guarded_tree 1 ()
     = Some (Some \<lparr>showInTree = None, reason = Some ''operators only''\<rparr>)
   \<and> checkRequirement (Suc (Suc 0)) guarded_tree 0 () = Some None"
  by (simp add: guarded_tree_def getNode_def newCommandNode_def requireNothing_def
        denied_def children_def)


section \<open>addChild leaves every requirement as it is\<close>




section \<open>Properties of the tie-break of parseNodes\<close>

lemma potentialCompare_rank:
  "(potentialCompare a b \<le> 0) = (potentialRank a \<le> potentialRank b)"
  by (auto simp: potentialCompare_def potentialRank_def less_eq_prod_def)

lemma comesBefore_rank: "comesBefore a b = (potentialRank a < potentialRank b)"
  by (auto simp: comesBefore_def potentialRank_def less_prod_def)

lemma hd_insertWith:
  "hd (insertWith cmp x ys) = (if ys = [] then x else if cmp x (hd ys) \<le> 0 then x else hd ys)"
  by (cases ys) simp_all

lemma insertWith_not_Nil: "insertWith cmp x ys \<noteq> []"
  by (cases ys) simp_all

lemma sortWith_Cons: "sortWith cmp (x # xs) = insertWith cmp x (sortWith cmp xs)"
  by (simp add: sortWith_def)

lemma sortWith_Nil_iff: "(sortWith cmp xs = []) = (xs = [])"
  by (cases xs) (simp_all add: sortWith_def insertWith_not_Nil)

lemma hd_sortWith_first_minimum:
  fixes key :: "'a \<Rightarrow> 'k::linorder"
  assumes cmp: "\<And>a b. (cmp a b \<le> 0) = (key a \<le> key b)"
      and ne: "xs \<noteq> []"
  shows "\<exists>i<length xs. hd (sortWith cmp xs) = xs ! i
           \<and> (\<forall>j<length xs. key (xs ! i) \<le> key (xs ! j))
           \<and> (\<forall>j<i. key (xs ! i) < key (xs ! j))"
  using ne
proof (induction xs)
  case Nil
  then show ?case by simp
next
  case (Cons x xs)
  show ?case
  proof (cases "xs = []")
    case True
    then show ?thesis by (simp add: sortWith_def)
  next
    case False
    from Cons.IH[OF False] obtain i where i: "i < length xs"
      and hd: "hd (sortWith cmp xs) = xs ! i"
      and min: "\<forall>j<length xs. key (xs ! i) \<le> key (xs ! j)"
      and first: "\<forall>j<i. key (xs ! i) < key (xs ! j)"
      by blast
    have ne': "sortWith cmp xs \<noteq> []" using False by (simp add: sortWith_Nil_iff)
    show ?thesis
    proof (cases "key x \<le> key (xs ! i)")
      case True
      have h: "hd (sortWith cmp (x # xs)) = x"
        using True ne' hd by (simp add: sortWith_Cons hd_insertWith cmp)
      have "\<forall>j<length (x # xs). key x \<le> key ((x # xs) ! j)"
      proof (intro allI impI)
        fix j assume j: "j < length (x # xs)"
        show "key x \<le> key ((x # xs) ! j)"
        proof (cases j)
          case 0
          then show ?thesis by simp
        next
          case (Suc k)
          with j min True show ?thesis by (auto intro: order_trans)
        qed
      qed
      with h show ?thesis by (intro exI[of _ 0]) simp
    next
      case False
      then have lt: "key (xs ! i) < key x" by simp
      have h: "hd (sortWith cmp (x # xs)) = xs ! i"
        using False ne' hd by (simp add: sortWith_Cons hd_insertWith cmp)
      have m: "\<forall>j<length (x # xs). key (xs ! i) \<le> key ((x # xs) ! j)"
      proof (intro allI impI)
        fix j assume j: "j < length (x # xs)"
        show "key (xs ! i) \<le> key ((x # xs) ! j)"
          using j min lt by (cases j) auto
      qed
      have f: "\<forall>j<Suc i. key (xs ! i) < key ((x # xs) ! j)"
      proof (intro allI impI)
        fix j assume j: "j < Suc i"
        show "key (xs ! i) < key ((x # xs) ! j)"
          using j first lt by (cases j) auto
      qed
      from i h m f show ?thesis by (intro exI[of _ "Suc i"]) simp
    qed
  qed
qed

text \<open>
  Claim C4. When \<open>parseNodes\<close> ends with potential parses (one or more), the result it
  returns is the first under the order of the tie-break: it is an element of
  \<open>potentials\<close>, no potential comes before it (none without leftover input if it has
  leftover input; none without errors among those that agree with it on the leftover
  input if it has errors), and every potential that was inserted earlier comes strictly
  after it, so that ties keep the insertion order.
\<close>

theorem parseNodes_result_first_in_order:
  assumes "potentials \<noteq> []"
  shows "\<exists>i<length potentials.
           parseNodes_result potentials contextSoFar originalReader errors = potentials ! i
           \<and> (\<forall>j<length potentials. \<not> comesBefore (potentials ! j) (potentials ! i))
           \<and> (\<forall>j<i. comesBefore (potentials ! i) (potentials ! j))"
proof (cases "length potentials > 1")
  case True
  have "parseNodes_result potentials contextSoFar originalReader errors
          = hd (sortWith potentialCompare potentials)"
    using True assms by (simp add: parseNodes_result_def)
  with hd_sortWith_first_minimum[of potentialCompare potentialRank potentials,
         OF potentialCompare_rank assms]
  show ?thesis by (simp add: comesBefore_rank not_less)
next
  case False
  with assms obtain p where p: "potentials = [p]"
    by (cases potentials) auto
  show ?thesis
    by (intro exI[of _ 0]) (simp add: p parseNodes_result_def comesBefore_rank)
qed

text \<open>Of the four example potentials the third is returned: it comes before the first
  two, and the fourth, its equal in the order, was inserted later.\<close>

theorem parseNodes_result_first_in_order_witness:
  "[potential_leftover, potential_errors, potential_clean, potential_clean_later] \<noteq> []
   \<and> parseNodes_result
        [potential_leftover, potential_errors, potential_clean, potential_clean_later]
        (newCommandContextBuilder () 0 0) (newStringReader ''ab c'') []
       = potential_clean
   \<and> comesBefore potential_clean potential_leftover
   \<and> comesBefore potential_clean potential_errors
   \<and> \<not> comesBefore potential_clean_later potential_clean"
proof -
  let ?ps = "[potential_leftover, potential_errors, potential_clean, potential_clean_later]"
  have ne: "?ps \<noteq> []" by simp
  note general = parseNodes_result_first_in_order[OF ne,
      of "newCommandContextBuilder () 0 0" "newStringReader ''ab c''" "[]"]
  have picked: "parseNodes_result ?ps (newCommandContextBuilder () 0 0) (newStringReader ''ab c'') []
      = potential_clean"
    by (simp add: parseNodes_result_def sortWith_def potentialCompare_def canReadAnything_def
          canRead_def potential_leftover_def potential_errors_def potential_clean_def
          potential_clean_later_def)
  have order: "comesBefore potential_clean potential_leftover
     \<and> comesBefore potential_clean potential_errors
     \<and> \<not> comesBefore potential_clean_later potential_clean"
    by (simp add: comesBefore_def canReadAnything_def canRead_def potential_leftover_def
          potential_errors_def potential_clean_def potential_clean_later_def)
  from general ne picked order show ?thesis by simp
qed


section \<open>Properties of register and unregister\<close>

lemma update_absent: "map_of m k = None \<Longrightarrow> AList.update k v m = m @ [(k, v)]"
  by (induction m) (auto split: if_splits)

lemma delete_appended: "map_of m k = None \<Longrightarrow> AList.delete k (m @ [(k, v)]) = m"
  by (induction m) (auto split: if_splits)

lemma compareTo_key:
  "(compareTo collate a b \<le> 0)
     = ((\<not> isLiteral a, collate (sortedKey a)) \<le> (\<not> isLiteral b, collate (sortedKey b)))"
  by (auto simp: compareTo_def localeCompare_def)

lemma insertWith_insort_key:
  fixes key :: "'a \<Rightarrow> 'k::linorder"
  assumes "\<And>a b. (cmp a b \<le> 0) = (key a \<le> key b)"
  shows "insertWith cmp x ys = insort_key key x ys"
  by (induction ys) (simp_all add: assms)

lemma sortWith_sort_key:
  fixes key :: "'a \<Rightarrow> 'k::linorder"
  assumes "\<And>a b. (cmp a b \<le> 0) = (key a \<le> key b)"
  shows "sortWith cmp xs = sort_key key xs"
  unfolding sortWith_def sort_key_def
  using insertWith_insort_key[of cmp key, OF assms]
  by (induction xs) simp_all

lemma sortChildren_sort_key:
  "sortChildren collate h xs = sort_key (childKey collate h) xs"
  unfolding sortChildren_def
  by (rule sortWith_sort_key) (simp add: compareTo_key childKey_def)

lemma sortChildren_delete:
  "AList.delete k (sortChildren collate h xs) = sortChildren collate h (AList.delete k xs)"
  by (simp add: sortChildren_sort_key AList.delete_eq filter_sort)

lemma set_sortChildren: "set (sortChildren collate h xs) = set xs"
  by (simp add: sortChildren_sort_key)

lemma insort_key_cong:
  "f x = g x \<Longrightarrow> \<forall>y\<in>set ys. f y = g y \<Longrightarrow> insort_key f x ys = insort_key g x ys"
  by (induction ys) simp_all

lemma sort_key_cong:
  "\<forall>y\<in>set xs. f y = g y \<Longrightarrow> sort_key f xs = sort_key g xs"
proof (induction xs)
  case Nil
  then show ?case by simp
next
  case (Cons x xs)
  then have eq: "sort_key f xs = sort_key g xs" by simp
  have "insort_key f x (sort_key g xs) = insort_key g x (sort_key g xs)"
    by (rule insort_key_cong) (use Cons.prems in simp_all)
  with eq show ?case by simp
qed

lemma sortChildren_cong:
  assumes "\<And>i. i \<in> snd ` set xs \<Longrightarrow> kindAt h i = kindAt h' i"
  shows "sortChildren collate h xs = sortChildren collate h' xs"
proof -
  have "\<forall>e\<in>set xs. childKey collate h e = childKey collate h' e"
    using assms by (auto simp: childKey_def)
  then show ?thesis
    by (simp add: sortChildren_sort_key sort_key_cong)
qed

lemma kindAt_update:
  "getNode h t = Some T \<Longrightarrow> kind T' = kind T \<Longrightarrow> kindAt (h[t := T']) i = kindAt h i"
  by (auto simp: kindAt_def getNode_def nth_list_update split: if_splits)

lemma sortChildren_update:
  "getNode h t = Some T \<Longrightarrow> kind T' = kind T
     \<Longrightarrow> sortChildren collate (h[t := T']) xs = sortChildren collate h xs"
  by (rule sortChildren_cong) (simp add: kindAt_update)

lemma addChild_fresh_literal:
  assumes t: "getNode h t = Some T" and n: "getNode h n = Some N"
      and lit: "isLiteral (kind N)"
      and absent: "map_of (childrenMap T) (name N) = None"
      and absent_lit: "map_of (literals T) (name N) = None"
  shows "addChild collate (Suc f) h t n =
           Some (Inr (h[t := T\<lparr>childrenMap := sortChildren collate h (childrenMap T @ [(name N, n)]),
                              literals := literals T @ [(name N, n)]\<rparr>]))"
proof -
  have notroot: "kind N \<noteq> RootCommandNode" using lit by (cases "kind N") simp_all
  define T2 where "T2 = T\<lparr>childrenMap := childrenMap T @ [(name N, n)],
                           literals := literals T @ [(name N, n)]\<rparr>"
  have k: "kind T2 = kind T" by (simp add: T2_def)
  have s: "sortChildren collate (h[t := T2]) (childrenMap T2) = sortChildren collate h (childrenMap T2)"
    by (rule sortChildren_update[OF t k])
  show ?thesis
    using t n notroot lit absent absent_lit s
    by (cases T) (simp add: getChild_def Let_def update_absent setNode_def T2_def)
qed

lemma addChild_fresh:
  assumes t: "getNode h t = Some T" and n: "getNode h n = Some N"
      and notroot: "kind N \<noteq> RootCommandNode"
      and absent: "map_of (childrenMap T) (name N) = None"
  shows "\<exists>T'. addChild collate (Suc f) h t n = Some (Inr (h[t := T'])) \<and> kind T' = kind T
            \<and> fst ` set (childrenMap T') = insert (name N) (fst ` set (childrenMap T))"
proof -
  define T1 where "T1 = T\<lparr>childrenMap := childrenMap T @ [(name N, n)]\<rparr>"
  define T2 where "T2 = (if isLiteral (kind N)
                         then T1\<lparr>literals := AList.update (name N) n (literals T1)\<rparr>
                         else if isArgument (kind N)
                         then T1\<lparr>arguments := AList.update (name N) n (arguments T1)\<rparr>
                         else T1)"
  define T' where "T' = T2\<lparr>childrenMap := sortChildren collate (setNode h t T2) (childrenMap T2)\<rparr>"
  have run: "addChild collate (Suc f) h t n = Some (Inr (h[t := T']))"
    using t n notroot absent
    by (simp add: getChild_def Let_def update_absent setNode_def T'_def T2_def T1_def)
  have k: "kind T' = kind T" by (simp add: T'_def T2_def T1_def)
  have cm: "childrenMap T2 = childrenMap T @ [(name N, n)]" by (simp add: T2_def T1_def)
  have keys: "fst ` set (childrenMap T') = insert (name N) (fst ` set (childrenMap T))"
    by (simp add: T'_def cm set_sortChildren)
  from run k keys show ?thesis by blast
qed

lemma addChild_each_fresh:
  assumes "res < length h"
      and "\<forall>c\<in>set cs. c < length h \<and> c \<noteq> res \<and> kind (h ! c) \<noteq> RootCommandNode"
      and "distinct (map (\<lambda>c. name (h ! c)) cs)"
      and "\<forall>c\<in>set cs. name (h ! c) \<notin> fst ` set (childrenMap (h ! res))"
  shows "\<exists>R'. addChild_each collate (Suc f) h res cs = Some (Inr (h[res := R']))
              \<and> kind R' = kind (h ! res)"
  using assms
proof (induction cs arbitrary: h)
  case Nil
  show ?case by (intro exI[of _ "h ! res"]) simp
next
  case (Cons c cs)
  have t: "getNode h res = Some (h ! res)" using Cons.prems(1) by (simp add: getNode_def)
  have n: "getNode h c = Some (h ! c)" using Cons.prems(2) by (simp add: getNode_def)
  have notroot: "kind (h ! c) \<noteq> RootCommandNode" using Cons.prems(2) by simp
  have absent: "map_of (childrenMap (h ! res)) (name (h ! c)) = None"
    using Cons.prems(4) by (simp add: map_of_eq_None_iff)
  from addChild_fresh[OF t n notroot absent, of collate f]
  obtain T' where run: "addChild collate (Suc f) h res c = Some (Inr (h[res := T']))"
    and k: "kind T' = kind (h ! res)"
    and keys: "fst ` set (childrenMap T') = insert (name (h ! c)) (fst ` set (childrenMap (h ! res)))"
    by blast
  let ?h = "h[res := T']"
  have same: "\<And>d. d \<in> set cs \<Longrightarrow> ?h ! d = h ! d"
    using Cons.prems(2) by (auto simp: nth_list_update)
  have p1: "res < length ?h" using Cons.prems(1) by simp
  have p2: "\<forall>d\<in>set cs. d < length ?h \<and> d \<noteq> res \<and> kind (?h ! d) \<noteq> RootCommandNode"
    using Cons.prems(2) by (auto simp: nth_list_update)
  have p3: "distinct (map (\<lambda>d. name (?h ! d)) cs)"
  proof -
    have eq: "map (\<lambda>d. name (?h ! d)) cs = map (\<lambda>d. name (h ! d)) cs"
      by (rule map_cong) (simp_all add: same)
    from Cons.prems(3) have "distinct (map (\<lambda>d. name (h ! d)) cs)" by simp
    then show ?thesis by (simp only: eq)
  qed
  have p4: "\<forall>d\<in>set cs. name (?h ! d) \<notin> fst ` set (childrenMap (?h ! res))"
  proof
    fix d assume d: "d \<in> set cs"
    have "name (h ! c) \<notin> (\<lambda>c. name (h ! c)) ` set cs" using Cons.prems(3) by simp
    then have "name (h ! d) \<noteq> name (h ! c)" using d by (metis imageI)
    moreover have "name (h ! d) \<notin> fst ` set (childrenMap (h ! res))"
      using Cons.prems(4) d by simp
    ultimately show "name (?h ! d) \<notin> fst ` set (childrenMap (?h ! res))"
      using same[OF d] keys Cons.prems(1) by simp
  qed
  from Cons.IH[OF p1 p2 p3 p4]
  obtain R' where rest: "addChild_each collate (Suc f) ?h res cs = Some (Inr (?h[res := R']))"
    and k': "kind R' = kind (?h ! res)"
    by blast
  have "addChild_each collate (Suc f) h res (c # cs) = Some (Inr (h[res := R']))"
    using run rest by simp
  moreover have "kind R' = kind (h ! res)" using k' k Cons.prems(1) by simp
  ultimately show ?case by blast
qed

lemma build_fresh:
  fixes h :: "('s, 't, 'c, 'm, 'v) NodeStore"
  assumes args: "getNode h (builder_arguments b) = Some a"
      and ok: "childrenMap_ok h (childrenMap a)"
  shows "\<exists>R. build collate (Suc f) h b = Some (Inr (h @ [R], length h))
            \<and> kind R = LiteralCommandNode (builder_literal b) (builder_aliases b)"
proof -
  define new :: "('s, 't, 'c, 'm, 'v) CommandNode" where
    "new = newCommandNode (LiteralCommandNode (builder_literal b) (builder_aliases b))
             (builder_command b) (builder_commandDescription b)
             (Some (normalizeRequirement (builder_requirement b)))
             (builder_target b) (map_option Modifier (builder_modifier b))"
  let ?h = "h @ [new]"
  let ?cs = "children a"
  have entries: "\<forall>e\<in>set (childrenMap a). snd e < length h \<and> kind (h ! snd e) \<noteq> RootCommandNode
                    \<and> name (h ! snd e) = fst e"
    using ok by (auto simp: childrenMap_ok_def list_all_iff getNode_def split: if_splits)
  have p1: "length h < length ?h" by simp
  have p2: "\<forall>c\<in>set ?cs. c < length ?h \<and> c \<noteq> length h \<and> kind (?h ! c) \<noteq> RootCommandNode"
    using entries by (auto simp: children_def nth_append)
  have names: "map (\<lambda>c. name (?h ! c)) ?cs = map fst (childrenMap a)"
    using entries by (auto simp: children_def nth_append)
  have p3: "distinct (map (\<lambda>c. name (?h ! c)) ?cs)"
    using ok by (simp add: names childrenMap_ok_def)
  have p4: "\<forall>c\<in>set ?cs. name (?h ! c) \<notin> fst ` set (childrenMap (?h ! length h))"
    by (simp add: new_def newCommandNode_def)
  from addChild_each_fresh[OF p1 p2 p3 p4, of collate f]
  obtain R' where each: "addChild_each collate (Suc f) ?h (length h) ?cs = Some (Inr (?h[length h := R']))"
    and k: "kind R' = kind (?h ! length h)"
    by blast
  have "build collate (Suc f) h b = Some (Inr (h @ [R'], length h))"
    using args each unfolding build_def buildNode_def alloc_def new_def by simp
  moreover have "kind R' = LiteralCommandNode (builder_literal b) (builder_aliases b)"
    using k by (simp add: new_def newCommandNode_def)
  ultimately show ?thesis by blast
qed

lemma kindAt_append: "i < length h \<Longrightarrow> kindAt (h @ xs) i = kindAt h i"
  by (simp add: kindAt_def getNode_def nth_append)

text \<open>
  Claim C3, amended. Let the dispatcher's root have no child and no literal-index
  entry under the name of the builder's literal, let its children map be in the order
  \<open>addChild\<close> leaves it in and hold handles of the store, and let the builder's own
  children map be well formed. Then \<open>register\<close> returns a node, \<open>unregister\<close> of
  that node returns, and afterwards every node object that existed before the
  \<open>register\<close> call, the root included, is exactly as it was. (When the root already
  has a child of that name, \<open>register\<close> merges into it and \<open>unregister\<close> removes the
  merged child altogether; see the counterexample below.)
\<close>

theorem register_unregister_restores:
  fixes h :: "('s, 't, 'c, 'm, 'v) NodeStore"
  assumes root: "getNode h (root d) = Some r"
      and args: "getNode h (builder_arguments b) = Some a"
      and ok: "childrenMap_ok h (childrenMap a)"
      and allocated: "\<forall>i\<in>snd ` set (childrenMap r). i < length h"
      and sorted: "sortChildren collate h (childrenMap r) = childrenMap r"
      and absent: "map_of (childrenMap r) (builder_literal b) = None"
      and absent_lit: "map_of (literals r) (builder_literal b) = None"
      and fuel: "0 < fuel"
  shows "\<exists>h2 node h3. register collate fuel d h b = Some (Inr (h2, node))
           \<and> unregister d h2 node = Some h3 \<and> take (length h) h3 = h"
proof -
  from fuel obtain f where f: "fuel = Suc f" by (cases fuel) simp_all
  from build_fresh[OF args ok, of collate f]
  obtain R where built: "build collate (Suc f) h b = Some (Inr (h @ [R], length h))"
    and kR: "kind R = LiteralCommandNode (builder_literal b) (builder_aliases b)"
    by blast
  let ?l = "builder_literal b"
  let ?n = "length h"
  let ?h1 = "h @ [R]"
  have rt: "root d < length h" and r: "h ! root d = r"
    using root by (auto simp: getNode_def split: if_splits)
  have nameR: "name R = ?l" by (simp add: name_def kR)
  have litR: "isLiteral (kind R)" by (simp add: kR)
  have g1: "getNode ?h1 (root d) = Some r"
    using rt r by (simp add: getNode_def nth_append)
  have g2: "getNode ?h1 ?n = Some R" by (simp add: getNode_def)
  define r' where "r' = r\<lparr>childrenMap := sortChildren collate ?h1 (childrenMap r @ [(?l, ?n)]),
                            literals := literals r @ [(?l, ?n)]\<rparr>"
  have added: "addChild collate (Suc f) ?h1 (root d) ?n = Some (Inr (?h1[root d := r']))"
    using addChild_fresh_literal[OF g1 g2 litR, of collate f] absent absent_lit
    by (simp add: nameR r'_def)
  let ?h2 = "?h1[root d := r']"
  have reg: "register collate fuel d h b = Some (Inr (?h2, ?n))"
    by (simp add: register_def f built added del: addChild.simps)
  have g3: "getNode ?h2 (root d) = Some r'"
    using rt by (simp add: getNode_def)
  have g4: "getNode ?h2 ?n = Some R"
    using rt by (simp add: getNode_def)
  have "AList.delete ?l (childrenMap r') = sortChildren collate ?h1 (childrenMap r)"
    by (simp add: r'_def sortChildren_delete delete_appended absent)
  also have "\<dots> = sortChildren collate h (childrenMap r)"
    by (rule sortChildren_cong) (use allocated in \<open>auto simp: kindAt_append\<close>)
  finally have cm: "AList.delete ?l (childrenMap r') = childrenMap r"
    using sorted by simp
  have lits: "AList.delete ?l (literals r') = literals r"
    by (simp add: r'_def delete_appended absent_lit)
  have restored: "r'\<lparr>childrenMap := childrenMap r, literals := literals r\<rparr> = r"
    by (cases r) (simp add: r'_def)
  have unreg: "unregister d ?h2 ?n = Some (?h2[root d := r])"
    using g3 g4 litR cm lits restored
    by (simp add: unregister_def removeChild_def map_delete_def nameR setNode_def Let_def)
  have "take (length h) (?h2[root d := r]) = h"
    using rt r by (auto simp: list_update_append list_update_same_conv)
  with reg unreg show ?thesis by blast
qed

text \<open>In \<open>registry\<close> the root has the command \<open>b\<close> only; registering the builder for
  \<open>a\<close> (with its child \<open>x\<close>) and unregistering the returned node gives back the four
  node objects of \<open>registry\<close> unchanged.\<close>

theorem register_unregister_restores_witness:
  "map_of (childrenMap (registry ! 0)) (builder_literal builder_a) = None
   \<and> map_of (literals (registry ! 0)) (builder_literal builder_a) = None
   \<and> (case register codeUnits (Suc 0) \<lparr>root = 0\<rparr> registry builder_a of
         Some (Inr (h2, node)) \<Rightarrow>
           (case unregister \<lparr>root = 0\<rparr> h2 node of
              Some h3 \<Rightarrow> take (length registry) h3 = registry
            | None \<Rightarrow> False)
       | _ \<Rightarrow> False)"
proof -
  let ?d = "\<lparr>root = 0\<rparr>"
  have rootnode: "getNode registry (root ?d) = Some (registry ! 0)"
    by (simp add: getNode_def registry_def)
  have args: "getNode registry (builder_arguments builder_a) = Some (registry ! 2)"
    by (simp add: getNode_def registry_def builder_a_def)
  have ok: "childrenMap_ok registry (childrenMap (registry ! 2))"
    by (simp add: childrenMap_ok_def registry_def getNode_def newRootCommandNode_def
          newCommandNode_def name_def)
  have allocated: "\<forall>i\<in>snd ` set (childrenMap (registry ! 0)). i < length registry"
    by (simp add: registry_def newRootCommandNode_def newCommandNode_def)
  have sorted: "sortChildren codeUnits registry (childrenMap (registry ! 0)) = childrenMap (registry ! 0)"
    by (simp add: registry_def newRootCommandNode_def newCommandNode_def sortChildren_def
          sortWith_def)
  have absent: "map_of (childrenMap (registry ! 0)) (builder_literal builder_a) = None"
    by (simp add: registry_def newRootCommandNode_def newCommandNode_def builder_a_def)
  have absent_lit: "map_of (literals (registry ! 0)) (builder_literal builder_a) = None"
    by (simp add: registry_def newRootCommandNode_def newCommandNode_def builder_a_def)
  from register_unregister_restores[OF rootnode args ok allocated sorted absent absent_lit,
      of "Suc 0"]
  obtain h2 node h3 where
    "register codeUnits (Suc 0) ?d registry builder_a = Some (Inr (h2, node))"
    "unregister ?d h2 node = Some h3" "take (length registry) h3 = registry"
    by auto
  with absent absent_lit show ?thesis by simp
qed

text \<open>
  Claim C3 as stated includes the case where the root already has a child of the
  builder's name. In \<open>registry_with_a\<close> the root has the command \<open>a\<close>; \<open>register\<close> of a
  second builder for \<open>a\<close> merges into it, and \<open>unregister\<close> of the node that \<open>register\<close>
  returned deletes the entry \<open>a\<close> from the root: the root had one child before and has
  none afterwards.
\<close>

theorem register_unregister_drops_namesake:
  "(case register codeUnits (Suc 0) \<lparr>root = 0\<rparr> registry_with_a second_builder_a of
      Some (Inr (h2, node)) \<Rightarrow>
        (case unregister \<lparr>root = 0\<rparr> h2 node of
           Some h3 \<Rightarrow> childrenMap (registry_with_a ! 0) = [(''a'', 1)] \<and> childrenMap (h3 ! 0) = []
         | None \<Rightarrow> False)
    | _ \<Rightarrow> False)"
  by (simp add: register_def build_def buildNode_def unregister_def removeChild_def registry_with_a_def
        second_builder_a_def getNode_def alloc_def newRootCommandNode_def newCommandNode_def
        children_def getChild_def name_def setNode_def sortChildren_def sortWith_def
        map_delete_def Let_def)

section \<open>Properties of requires and build\<close>












section \<open>Properties of the suggestion engine\<close>

lemma suggest_fields:
  "remaining (suggest b t tt) = remaining b \<and> sb_start (suggest b t tt) = sb_start b
   \<and> sb_input (suggest b t tt) = sb_input b"
  by (simp add: suggest_def)

lemma suggest_result:
  "set (sb_result (suggest b t tt)) \<subseteq>
     set (sb_result b) \<union> {s. s_text s \<noteq> remaining b
                              \<and> s_range s = between (sb_start b) (length (sb_input b))}"
  by (auto simp: suggest_def)

lemma fold_suggest_invariant:
  assumes "\<forall>s\<in>set (sb_result b). s_text s \<noteq> remaining b
              \<and> s_range s = between (sb_start b) (length (sb_input b))"
  shows "remaining (fold (\<lambda>x b. if P x then suggest b x (tt x) else b) xs b) = remaining b
       \<and> sb_start (fold (\<lambda>x b. if P x then suggest b x (tt x) else b) xs b) = sb_start b
       \<and> sb_input (fold (\<lambda>x b. if P x then suggest b x (tt x) else b) xs b) = sb_input b
       \<and> (\<forall>s\<in>set (sb_result (fold (\<lambda>x b. if P x then suggest b x (tt x) else b) xs b)).
             s_text s \<noteq> remaining b
             \<and> s_range s = between (sb_start b) (length (sb_input b)))"
  using assms
proof (induction xs arbitrary: b)
  case Nil
  then show ?case by simp
next
  case (Cons x xs)
  let ?b = "if P x then suggest b x (tt x) else b"
  have f: "remaining ?b = remaining b \<and> sb_start ?b = sb_start b \<and> sb_input ?b = sb_input b"
    by (simp add: suggest_fields)
  have inv: "\<forall>s\<in>set (sb_result ?b). s_text s \<noteq> remaining ?b
              \<and> s_range s = between (sb_start ?b) (length (sb_input ?b))"
    using Cons.prems suggest_result[of b x "tt x"] by (auto simp: suggest_fields)
  from Cons.IH[OF inv] f show ?case by simp
qed

lemma fold_min_const: "\<forall>x\<in>set xs. f x = (a::nat) \<Longrightarrow> fold (\<lambda>s acc. min (f s) acc) xs a = a"
  by (induction xs) simp_all

lemma fold_max_const: "\<forall>x\<in>set xs. f x = (a::nat) \<Longrightarrow> fold (\<lambda>s acc. max (f s) acc) xs a = a"
  by (induction xs) simp_all

lemma create_same_range:
  assumes "\<forall>s\<in>set xs. s_range s = R"
  shows "suggestions (create cmd xs) = xs"
proof (cases xs)
  case Nil
  then show ?thesis by (simp add: create_def EMPTY_SUGGESTIONS_def)
next
  case (Cons x rest)
  have all: "\<forall>s\<in>set rest. s_range s = R" and x: "s_range x = R"
    using assms Cons by simp_all
  have a: "fold (\<lambda>s acc. min (range_start (s_range s)) acc) rest (range_start R) = range_start R"
    by (rule fold_min_const) (simp add: all)
  have b: "fold (\<lambda>s acc. max (range_end (s_range s)) acc) rest (range_end R) = range_end R"
    by (rule fold_max_const) (simp add: all)
  have e: "\<forall>s\<in>set xs. expand s cmd \<lparr>range_start = range_start R, range_end = range_end R\<rparr> = s"
    using assms by (simp add: expand_def range_equals_def)
  show ?thesis
    using e by (simp add: Cons create_def Let_def x a b map_idI)
qed

lemma build_suggestions_invariant:
  assumes "\<forall>s\<in>set (sb_result b). s_text s \<noteq> rem \<and> s_range s = R"
  shows "\<forall>s\<in>set (suggestions (build_suggestions b)). s_text s \<noteq> rem \<and> s_range s = R"
proof -
  have "suggestions (build_suggestions b) = sb_result b"
    unfolding build_suggestions_def
    by (rule create_same_range[of _ R]) (use assms in simp)
  with assms show ?thesis by simp
qed

lemma newSuggestionsBuilder_fields:
  "remaining (newSuggestionsBuilder input start md) = substringFrom input start
   \<and> sb_start (newSuggestionsBuilder input start md) = start
   \<and> sb_input (newSuggestionsBuilder input start md) = input
   \<and> sb_result (newSuggestionsBuilder input start md) = []"
  by (simp add: newSuggestionsBuilder_def)

lemma listSuggestions_through_builder:
  fixes k :: "('a, 'e, 'c, 'd, 'v) NodeKind"
  assumes stock: "answersThroughBuilder k"
      and res: "listSuggestions k ctx (newSuggestionsBuilder input start md) = Inr S"
  shows "\<forall>s\<in>set (suggestions S). s_text s \<noteq> substringFrom input start
                                   \<and> s_range s = between start (length input)"
proof -
  let ?b = "newSuggestionsBuilder input start md"
  have init: "\<forall>s\<in>set (sb_result ?b). s_text s \<noteq> remaining ?b
              \<and> s_range s = between (sb_start ?b) (length (sb_input ?b))"
    by (simp add: newSuggestionsBuilder_fields)
  show ?thesis
  proof (cases k)
    case RootCommandNode
    with res show ?thesis by (auto simp: EMPTY_SUGGESTIONS_def)
  next
    case (LiteralCommandNode l as)
    let ?P = "\<lambda>literal. startsWith (toLowerCase literal) (toLowerCase (remaining ?b))"
    let ?tt = "\<lambda>literal. if length (filter (\<lambda>e. e \<noteq> literal) (l # as)) = 0 then None
                          else Some (join '', '' (filter (\<lambda>e. e \<noteq> literal) (l # as)))"
    let ?f = "fold (\<lambda>x b. if ?P x then suggest b x (?tt x) else b) (l # as) ?b"
    from res have "Inr (build_suggestions ?f) = (Inr S :: 'e Error + Suggestions)"
      unfolding LiteralCommandNode
      by (simp only: listSuggestions.simps literal_listSuggestions_def Let_def)
    then have S: "S = build_suggestions ?f"
      by (simp only: sum.inject)
    have "\<forall>s\<in>set (sb_result ?f). s_text s \<noteq> remaining ?b
              \<and> s_range s = between (sb_start ?b) (length (sb_input ?b))"
      using fold_suggest_invariant[OF init, of ?P ?tt "l # as"] by blast
    then have "\<forall>s\<in>set (sb_result ?f). s_text s \<noteq> substringFrom input start
              \<and> s_range s = between start (length input)"
      by (simp add: newSuggestionsBuilder_fields)
    from build_suggestions_invariant[OF this] S show ?thesis by simp
  next
    case (ArgumentCommandNode n ty custom)
    with stock have c: "custom = None"
      and t: "type_listSuggestions ty = None
              \<or> type_listSuggestions ty = Some BoolArgumentType_listSuggestions"
      by (simp_all add: answersThroughBuilder_def)
    from t show ?thesis
    proof
      assume t: "type_listSuggestions ty = None"
      let ?P = "\<lambda>literal. startsWith literal (remaining ?b)"
      let ?tt = "\<lambda>literal::string. None :: string option"
      let ?f = "fold (\<lambda>x b. if ?P x then suggest b x (?tt x) else b) (examples ty) ?b"
      from res have "Inr (build_suggestions ?f) = (Inr S :: 'e Error + Suggestions)"
        unfolding ArgumentCommandNode c
        by (simp only: listSuggestions.simps listSuggestions_of_type_def t option.case
              ArgumentType_listSuggestions_def Let_def)
      then have S: "S = build_suggestions ?f"
        by (simp only: sum.inject)
      have "\<forall>s\<in>set (sb_result ?f). s_text s \<noteq> remaining ?b
                \<and> s_range s = between (sb_start ?b) (length (sb_input ?b))"
        using fold_suggest_invariant[OF init, of ?P ?tt "examples ty"] by blast
      then have "\<forall>s\<in>set (sb_result ?f). s_text s \<noteq> substringFrom input start
                \<and> s_range s = between start (length input)"
        by (simp add: newSuggestionsBuilder_fields)
      from build_suggestions_invariant[OF this] S show ?thesis by simp
    next
      assume t: "type_listSuggestions ty = Some BoolArgumentType_listSuggestions"
      let ?P = "\<lambda>word. startsWith word (toLowerCase (remaining ?b))"
      let ?tt = "\<lambda>word::string. None :: string option"
      let ?f = "fold (\<lambda>x b. if ?P x then suggest b x (?tt x) else b) [''true'', ''false''] ?b"
      from res have "Inr (build_suggestions ?f) = (Inr S :: 'e Error + Suggestions)"
        unfolding ArgumentCommandNode c
        by (simp only: listSuggestions.simps listSuggestions_of_type_def t option.case
              BoolArgumentType_listSuggestions_def Let_def fold_simps id_apply comp_apply)
      then have S: "S = build_suggestions ?f"
        by (simp only: sum.inject)
      have "\<forall>s\<in>set (sb_result ?f). s_text s \<noteq> remaining ?b
                \<and> s_range s = between (sb_start ?b) (length (sb_input ?b))"
        using fold_suggest_invariant[OF init, of ?P ?tt "[''true'', ''false'']"] by blast
      then have "\<forall>s\<in>set (sb_result ?f). s_text s \<noteq> substringFrom input start
                \<and> s_range s = between start (length input)"
        by (simp add: newSuggestionsBuilder_fields)
      from build_suggestions_invariant[OF this] S show ?thesis by simp
    qed
  qed
qed

lemma merge_invariant:
  assumes "\<forall>F\<in>set fs. \<forall>s\<in>set (suggestions F). s_text s \<noteq> rem \<and> s_range s = R"
  shows "\<forall>s\<in>set (suggestions (merge cmd fs)). s_text s \<noteq> rem \<and> s_range s = R"
proof (cases fs)
  case Nil
  then show ?thesis by (simp add: merge_def EMPTY_SUGGESTIONS_def)
next
  case (Cons F rest)
  show ?thesis
  proof (cases rest)
    case Nil
    with Cons assms show ?thesis by (simp add: merge_def)
  next
    case (Cons G more)
    have all: "\<forall>s\<in>set (concat (map suggestions fs)). s_text s \<noteq> rem \<and> s_range s = R"
      using assms by auto
    then have "suggestions (create cmd (concat (map suggestions fs))) = concat (map suggestions fs)"
      by (intro create_same_range[of _ R]) simp
    moreover have "merge cmd fs = create cmd (concat (map suggestions fs))"
      using Cons \<open>fs = F # rest\<close> by (simp add: merge_def)
    ultimately show ?thesis using all by simp
  qed
qed

lemma getCompletionSuggestions_loop_invariant:
  assumes "getCompletionSuggestions_loop fuel h ctx input start source cs futures = Some fs"
      and "\<forall>F\<in>set futures. \<forall>s\<in>set (suggestions F).
             s_text s \<noteq> substringFrom input start \<and> s_range s = between start (length input)"
      and "\<forall>c\<in>set cs. \<forall>n. getNode h c = Some n \<longrightarrow> answersThroughBuilder (kind n)"
  shows "\<forall>F\<in>set fs. \<forall>s\<in>set (suggestions F).
             s_text s \<noteq> substringFrom input start \<and> s_range s = between start (length input)"
  using assms
proof (induction cs arbitrary: futures)
  case Nil
  then show ?case by simp
next
  case (Cons c cs)
  from Cons.prems(1) obtain failure where chk: "checkRequirement fuel h c source = Some failure"
    by (auto split: option.splits)
  show ?case
  proof (cases "failure \<noteq> None \<and> showInTree (the failure) \<noteq> Some True")
    case True
    with Cons.prems(1) chk
    have "getCompletionSuggestions_loop fuel h ctx input start source cs futures = Some fs"
      by simp
    from Cons.IH[OF this Cons.prems(2)] Cons.prems(3) show ?thesis by simp
  next
    case False
    with Cons.prems(1) chk obtain n where n: "getNode h c = Some n"
      by (auto split: option.splits)
    define md where "md = \<lparr>md_prefix = Some (usage (kind n)),
                         md_suffix = commandDescription n,
                         md_order = None,
                         md_suggestionType =
                           Some (if isLiteral (kind n) then literal_suggestion
                                 else argument_suggestion),
                         md_commandNode = Some c\<rparr>"
    define F where "F = (case listSuggestions (kind n) ctx (newSuggestionsBuilder input start md) of
                           Inr s \<Rightarrow> s
                         | Inl ignored \<Rightarrow> EMPTY_SUGGESTIONS)"
    have next_call: "getCompletionSuggestions_loop fuel h ctx input start source cs (futures @ [F]) = Some fs"
      using Cons.prems(1) chk False n
      by (auto simp: F_def md_def Let_def split: if_splits)
    have stock: "answersThroughBuilder (kind n)" using Cons.prems(3) n by simp
    have goodF: "\<forall>s\<in>set (suggestions F).
             s_text s \<noteq> substringFrom input start \<and> s_range s = between start (length input)"
    proof (cases "listSuggestions (kind n) ctx (newSuggestionsBuilder input start md)")
      case (Inl e)
      then show ?thesis by (simp add: F_def EMPTY_SUGGESTIONS_def)
    next
      case (Inr S)
      from listSuggestions_through_builder[OF stock Inr] Inr show ?thesis by (simp add: F_def)
    qed
    have inv: "\<forall>G\<in>set (futures @ [F]). \<forall>s\<in>set (suggestions G).
             s_text s \<noteq> substringFrom input start \<and> s_range s = between start (length input)"
      using Cons.prems(2) goodF by simp
    from Cons.IH[OF next_call inv] Cons.prems(3) show ?thesis by simp
  qed
qed

text \<open>
  Claim C7, amended. \<open>suggest\<close> adds no suggestion when the text equals
  \<open>builder.remaining\<close>. Consequently, when every child of the node under the cursor
  answers through the builder it is handed (root and literal nodes, argument nodes
  without a provider of their own whose type inherits \<open>ArgumentType.listSuggestions\<close>
  or is the boolean type),
  no suggestion in the merged set that \<open>getCompletionSuggestions\<close> returns has a text
  equal to what the user has typed from the start position to the cursor. (A
  suggestion provider passed by the caller, or a type that overrides
  \<open>listSuggestions\<close>, returns a \<open>Suggestions\<close> object of its own making; see the
  counterexample below.)
\<close>

theorem suggestions_never_repeat_typed_text:
  fixes h :: "('s, 't, 'c, 'm, 'v) NodeStore"
  assumes run: "getCompletionSuggestions fuel h parse cursor source = Some (Inr result)"
      and found: "findSuggestionContext (pr_context parse) cursor
                    = (Inr sc :: 't Error + SuggestionContext)"
      and par: "getNode h (parent sc) = Some p"
      and stock: "\<forall>c\<in>set (children p). \<forall>n. getNode h c = Some n \<longrightarrow> answersThroughBuilder (kind n)"
  shows "suggest b (remaining b) tooltip = b
         \<and> (\<forall>s\<in>set (suggestions result).
               s_text s \<noteq> substringFrom (substring (reader_string (pr_reader parse)) 0 cursor)
                                         (min (startPos sc) cursor))"
proof
  show "suggest b (remaining b) tooltip = b" by (simp add: suggest_def)
next
  let ?input = "substring (reader_string (pr_reader parse)) 0 cursor"
  let ?start = "min (startPos sc) cursor"
  from run found par obtain futures where
    loop: "getCompletionSuggestions_loop fuel h (build_context (pr_context parse) ?input)
             ?input ?start source (children p) [] = Some futures"
    and res: "result = merge (reader_string (pr_reader parse)) futures"
    by (auto simp: getCompletionSuggestions_def Let_def split: option.splits)
  have "\<forall>F\<in>set futures. \<forall>s\<in>set (suggestions F).
          s_text s \<noteq> substringFrom ?input ?start \<and> s_range s = between ?start (length ?input)"
    by (rule getCompletionSuggestions_loop_invariant[OF loop _ stock]) simp
  from merge_invariant[OF this] res
  show "\<forall>s\<in>set (suggestions result). s_text s \<noteq> substringFrom ?input ?start"
    by simp
qed



text \<open>In \<open>kick_tree\<close>, with \<open>ki\<close> typed and the cursor at its end, the literal \<open>ki\<close> is not
  offered and \<open>kick\<close> is.\<close>

theorem suggestions_never_repeat_typed_text_witness:
  "(case getCompletionSuggestions (Suc 0) kick_tree typed_ki 2 () of
      Some (Inr result) \<Rightarrow>
        map s_text (suggestions result) = [''kick'']
        \<and> substringFrom (substring (reader_string (pr_reader typed_ki)) 0 2) (min 0 2) = ''ki''
    | _ \<Rightarrow> False)"
proof -
  have ev: "(case getCompletionSuggestions (Suc 0) kick_tree typed_ki 2 () of
      Some (Inr result) \<Rightarrow> map s_text (suggestions result) = [''kick'']
    | _ \<Rightarrow> False)"
    by code_simp
  then obtain result where
    run: "getCompletionSuggestions (Suc 0) kick_tree typed_ki 2 () = Some (Inr result)"
    and texts: "map s_text (suggestions result) = [''kick'']"
    by (auto split: option.splits sum.splits)
  have found: "findSuggestionContext (pr_context typed_ki) 2
                 = (Inr \<lparr>parent = 0, startPos = 0\<rparr> :: string Error + SuggestionContext)"
    by (simp add: typed_ki_def withCommand_def withNode_def newCommandContextBuilder_def
          at_def between_def encompassing_def)
  have par: "getNode kick_tree (parent \<lparr>parent = 0, startPos = 0\<rparr>) = Some (kick_tree ! 0)"
    by (simp add: getNode_def kick_tree_def)
  have stock: "\<forall>c\<in>set (children (kick_tree ! 0)). \<forall>n. getNode kick_tree c = Some n
                  \<longrightarrow> answersThroughBuilder (kind n)"
    by (simp add: kick_tree_def children_def getNode_def newRootCommandNode_def
          newCommandNode_def answersThroughBuilder_def)
  have typed: "substringFrom (substring (reader_string (pr_reader typed_ki)) 0 2) (min 0 2) = ''ki''"
    by (simp add: typed_ki_def substringFrom_def substring_def)
  note general = suggestions_never_repeat_typed_text[OF run found par stock]
  from general run texts typed show ?thesis by simp
qed

text \<open>
  Claim C7 as stated speaks of every merged suggestion set. In \<open>user_tree\<close> the
  argument node \<open>user\<close> has the suggestion provider \<open>known_users\<close>; with \<open>bob\<close> typed
  and the cursor at its end, the set that \<open>getCompletionSuggestions\<close> returns contains
  \<open>bob\<close>, which is what has been typed.
\<close>

theorem custom_provider_repeats_typed_text:
  "(case getCompletionSuggestions (Suc 0) user_tree typed_bob 3 () of
      Some (Inr result) \<Rightarrow>
        map s_text (suggestions result) = [''alice'', ''bob'']
        \<and> substringFrom (substring (reader_string (pr_reader typed_bob)) 0 3) 0 = ''bob''
    | _ \<Rightarrow> False)"
  by (simp add: getCompletionSuggestions_def typed_bob_def user_tree_def withCommand_def
      withNode_def withArgument_def
      newCommandContextBuilder_def at_def between_def encompassing_def getNode_def
      newRootCommandNode_def newCommandNode_def children_def requireNothing_def substring_def
      substringFrom_def known_users_def newSuggestionsBuilder_def merge_def
      Let_def)

end
